theory Spec2Isabelle
  imports Complex_Main
begin

section \<open>Python values, exceptions and strings\<close>

text \<open>
  The request body is whatever \<^verbatim>\<open>request.get_json()\<close> returns: a dynamically typed
  Python value built from JSON. A \<^verbatim>\<open>dict\<close> is an association list looked up with
  \<open>map_of\<close>. Of a float only its truth value is ever inspected by the code below.
\<close>

datatype json =
    JNull
  | JBool bool
  | JInt int
  | JFloat rat
  | JStr string
  | JList "json list"
  | JObj "(string \<times> json) list"

text \<open>
  Exceptions are values: the class and the text that \<^verbatim>\<open>str(e)\<close> gives. \<open>PdfError\<close>
  stands for whatever PyPDF2 raises on a file it cannot read, \<open>NotFound\<close> for
  werkzeug's \<^verbatim>\<open>NotFound\<close> (an \<^verbatim>\<open>HTTPException\<close>, itself an \<^verbatim>\<open>Exception\<close>).
\<close>

datatype exn_class =
    FileNotFoundError
  | ValueError
  | TypeError
  | AttributeError
  | IndexError
  | KeyError
  | OSError
  | ZeroDivisionError
  | PdfError
  | NotFound
  | PlainException

datatype exn = Exn (exn_class: exn_class) (str_exn: string)

text \<open>
  A string is the UTF-8 encoding of a Python \<^verbatim>\<open>str\<close>: a character of ASCII is one byte,
  any other character the two to four bytes of its code point. Comparing, concatenating
  and searching come out on the bytes as they do on the characters; stripping and case
  mapping go character by character and are written out.
\<close>

definition ascii_lowercase :: string where
  "ascii_lowercase = ''abcdefghijklmnopqrstuvwxyz''"

definition ascii_uppercase :: string where
  "ascii_uppercase = ''ABCDEFGHIJKLMNOPQRSTUVWXYZ''"

definition upper_char :: "char \<Rightarrow> char" where
  "upper_char c = (case map_of (zip ascii_lowercase ascii_uppercase) c of Some u \<Rightarrow> u | None \<Rightarrow> c)"

definition lower_char :: "char \<Rightarrow> char" where
  "lower_char c = (case map_of (zip ascii_uppercase ascii_lowercase) c of Some l \<Rightarrow> l | None \<Rightarrow> c)"

text \<open>
  The characters outside ASCII whose upper case, in the full case mapping that
  \<^verbatim>\<open>str.upper\<close> applies, is made of ASCII letters: U+00DF (sharp s), U+0131 (dotless i),
  U+017F (long s) and the ligatures U+FB00 to U+FB06. The same for \<^verbatim>\<open>str.lower\<close>: U+212A
  (the Kelvin sign), and U+0130, whose lower case is \<^verbatim>\<open>i\<close> followed by U+0307.
\<close>

definition special_upper :: "(string \<times> string) list" where
  "special_upper =
     [([CHR 0xC3, CHR 0x9F], ''SS''),
      ([CHR 0xC4, CHR 0xB1], ''I''),
      ([CHR 0xC5, CHR 0xBF], ''S''),
      ([CHR 0xEF, CHR 0xAC, CHR 0x80], ''FF''),
      ([CHR 0xEF, CHR 0xAC, CHR 0x81], ''FI''),
      ([CHR 0xEF, CHR 0xAC, CHR 0x82], ''FL''),
      ([CHR 0xEF, CHR 0xAC, CHR 0x83], ''FFI''),
      ([CHR 0xEF, CHR 0xAC, CHR 0x84], ''FFL''),
      ([CHR 0xEF, CHR 0xAC, CHR 0x85], ''ST''),
      ([CHR 0xEF, CHR 0xAC, CHR 0x86], ''ST'')]"

definition special_lower :: "(string \<times> string) list" where
  "special_lower =
     [([CHR 0xE2, CHR 0x84, CHR 0xAA], ''k''),
      ([CHR 0xC4, CHR 0xB0], [CHR ''i'', CHR 0xCC, CHR 0x87])]"

text \<open>
  A case mapping: where the string starts with a character of the table, its image
  replaces it; an ASCII letter is mapped by \<open>f\<close>. Any other character outside ASCII is
  left as it is: its image has a character outside ASCII again, so the result is an ASCII
  string exactly when Python's is, and then it is the same string. The code compares the
  result with ASCII words, or uses it after such a comparison succeeded.
\<close>

fun case_map :: "(string \<times> string) list \<Rightarrow> (char \<Rightarrow> char) \<Rightarrow> string \<Rightarrow> string" where
  "case_map table f [] = []"
| "case_map table f (c # cs) =
     (case find (\<lambda>(w, r). take (length w) (c # cs) = w) table of
        Some (w, r) \<Rightarrow> r @ case_map table f (drop (length w - 1) cs)
      | None \<Rightarrow> f c # case_map table f cs)"

text \<open>\<^verbatim>\<open>s.upper()\<close> and \<^verbatim>\<open>s.lower()\<close>\<close>

definition upper :: "string \<Rightarrow> string" where
  "upper s = case_map special_upper upper_char s"

definition lower :: "string \<Rightarrow> string" where
  "lower s = case_map special_lower lower_char s"

definition digit_char :: "nat \<Rightarrow> char" where
  "digit_char d = ''0123456789'' ! d"

text \<open>\<^verbatim>\<open>str(n)\<close> for a natural number, and for an integer.\<close>

function str_nat :: "nat \<Rightarrow> string" where
  "str_nat n = (if n < 10 then [digit_char n] else str_nat (n div 10) @ [digit_char (n mod 10)])"
  by pat_completeness auto

termination
  by (relation "measure id") auto

declare str_nat.simps [simp del]

definition str_int :: "int \<Rightarrow> string" where
  "str_int i = (if i < 0 then CHR ''-'' # str_nat (nat (- i)) else str_nat (nat i))"

text \<open>Zero-padded decimal field of \<^verbatim>\<open>strftime\<close>: the \<open>w\<close> low digits of \<open>n\<close>.\<close>

fun zero_padded :: "nat \<Rightarrow> nat \<Rightarrow> string" where
  "zero_padded 0 n = []"
| "zero_padded (Suc w) n = zero_padded w (n div 10) @ [digit_char (n mod 10)]"

section \<open>The clock\<close>

record datetime =
  year :: nat
  month :: nat
  day :: nat
  hour :: nat
  minute :: nat
  second :: nat
  microsecond :: nat

text \<open>What \<^verbatim>\<open>datetime.now()\<close> can return.\<close>

definition valid_datetime :: "datetime \<Rightarrow> bool" where
  "valid_datetime t \<longleftrightarrow>
     1000 \<le> year t \<and> year t \<le> 9999 \<and> 1 \<le> month t \<and> month t \<le> 12 \<and>
     1 \<le> day t \<and> day t \<le> 31 \<and> hour t < 24 \<and> minute t < 60 \<and> second t < 60 \<and>
     microsecond t < 1000000"

text \<open>\<^verbatim>\<open>t.strftime("%Y%m%d_%H%M%S")\<close>\<close>

definition strftime_stamp :: "datetime \<Rightarrow> string" where
  "strftime_stamp t =
     zero_padded 4 (year t) @ zero_padded 2 (month t) @ zero_padded 2 (day t) @ ''_'' @
     zero_padded 2 (hour t) @ zero_padded 2 (minute t) @ zero_padded 2 (second t)"

section \<open>Dynamically typed operations\<close>

text \<open>Truth value of a Python object, as \<^verbatim>\<open>if x:\<close> and \<^verbatim>\<open>not x\<close> take it.\<close>

fun py_truthy :: "json \<Rightarrow> bool" where
  "py_truthy JNull = False"
| "py_truthy (JBool b) = b"
| "py_truthy (JInt i) = (i \<noteq> 0)"
| "py_truthy (JFloat r) = (r \<noteq> 0)"
| "py_truthy (JStr s) = (s \<noteq> [])"
| "py_truthy (JList xs) = (xs \<noteq> [])"
| "py_truthy (JObj d) = (d \<noteq> [])"

text \<open>\<^verbatim>\<open>isinstance(x, int)\<close>: a \<^verbatim>\<open>bool\<close> is an \<^verbatim>\<open>int\<close> in Python.\<close>

fun isinstance_int :: "json \<Rightarrow> bool" where
  "isinstance_int (JInt i) = True"
| "isinstance_int (JBool b) = True"
| "isinstance_int other = False"

text \<open>
  The integer an object stands for where the engine computes with it (\<^verbatim>\<open>x - 1\<close>,
  \<^verbatim>\<open>min(x, n)\<close>, \<^verbatim>\<open>range(a, b)\<close>); every other type ends in a \<^verbatim>\<open>TypeError\<close>, whose
  text is not modelled further.
\<close>

fun as_int :: "json \<Rightarrow> exn + int" where
  "as_int (JInt i) = Inr i"
| "as_int (JBool b) = Inr (if b then 1 else 0)"
| "as_int other = Inl (Exn TypeError ''unsupported operand type'')"

text \<open>\<^verbatim>\<open>sep.join(xs)\<close>, and the \<^verbatim>\<open>repr\<close> of a list of plain strings.\<close>

fun join :: "string \<Rightarrow> string list \<Rightarrow> string" where
  "join sep [] = []"
| "join sep [x] = x"
| "join sep (x # y # ys) = x @ sep @ join sep (y # ys)"

definition repr_list :: "string list \<Rightarrow> string" where
  "repr_list xs = ''['' @ join '', '' (map (\<lambda>x. [CHR 0x27] @ x @ [CHR 0x27]) xs) @ '']''"

text \<open>\<^verbatim>\<open>d.get(key, default)\<close> on a dict.\<close>

definition dict_get :: "(string \<times> json) list \<Rightarrow> string \<Rightarrow> json \<Rightarrow> json" where
  "dict_get d k dflt = (case map_of d k of None \<Rightarrow> dflt | Some v \<Rightarrow> v)"

text \<open>\<^verbatim>\<open>xs[i]\<close> on a sequence: a negative index counts from the end.\<close>

definition py_getitem :: "'a list \<Rightarrow> int \<Rightarrow> exn + 'a" where
  "py_getitem xs i =
     (if i < - int (length xs) \<or> int (length xs) \<le> i
      then Inl (Exn IndexError ''sequence index out of range'')
      else Inr (xs ! nat (if i < 0 then int (length xs) + i else i)))"

text \<open>\<^verbatim>\<open>range(a, b)\<close> as the list it iterates over.\<close>

definition py_range :: "int \<Rightarrow> int \<Rightarrow> int list" where
  "py_range a b = [a .. b - 1]"

text \<open>
  \<^verbatim>\<open>os.path.splitext(p)[0]\<close>: the path without the extension of its last component;
  dots that lead the component do not start an extension.
\<close>

definition splitext_root :: "string \<Rightarrow> string" where
  "splitext_root p =
     (let dir = rev (dropWhile (\<lambda>c. c \<noteq> CHR ''/'') (rev p));
          fname = rev (takeWhile (\<lambda>c. c \<noteq> CHR ''/'') (rev p));
          dots = takeWhile (\<lambda>c. c = CHR ''.'') fname;
          rest = dropWhile (\<lambda>c. c = CHR ''.'') fname
      in if CHR ''.'' \<in> set rest
         then dir @ dots @ rev (tl (dropWhile (\<lambda>c. c \<noteq> CHR ''.'') (rev rest)))
         else p)"

section \<open>The file store\<close>

text \<open>
  A file of the uploads folder: its size in bytes and what \<^verbatim>\<open>PdfReader\<close> makes of it,
  either the text of the exception it raises or the list of pages. A folder maps the
  name joined to it to the file; \<open>None\<close> is \<^verbatim>\<open>os.path.exists\<close> answering no.
\<close>

record 'p upload =
  file_size :: nat
  parsed :: "string + 'p list"

type_synonym 'p uploads = "string \<rightharpoonup> 'p upload"

definition PdfReader :: "'p upload \<Rightarrow> exn + 'p list" where
  "PdfReader f = (case parsed f of Inl msg \<Rightarrow> Inl (Exn PdfError msg) | Inr pages \<Rightarrow> Inr pages)"

text \<open>
  A \<^verbatim>\<open>PdfWriter\<close>: the pages added, and the post-processing calls made on it, in order.
  Besides \<^verbatim>\<open>add_page\<close> and \<^verbatim>\<open>write\<close> the code calls two methods on a writer.
\<close>

datatype writer_call = Compress_identical_objects | Remove_duplicates

definition method_name :: "writer_call \<Rightarrow> string" where
  "method_name c =
     (case c of
        Compress_identical_objects \<Rightarrow> ''compress_identical_objects''
      | Remove_duplicates \<Rightarrow> ''remove_duplicates'')"

text \<open>
  Those of the two that the class \<^verbatim>\<open>PdfWriter\<close> of PyPDF2, the library the repository
  imports, defines: neither.
\<close>

definition PdfWriter_methods :: "writer_call list" where
  "PdfWriter_methods = []"

record 'p pdf_writer =
  w_pages :: "'p list"
  w_calls :: "writer_call list"

definition PdfWriter :: "'p pdf_writer" where
  "PdfWriter = \<lparr>w_pages = [], w_calls = []\<rparr>"

definition add_page :: "'p \<Rightarrow> 'p pdf_writer \<Rightarrow> 'p pdf_writer" where
  "add_page p w = w\<lparr>w_pages := w_pages w @ [p]\<rparr>"

text \<open>
  \<^verbatim>\<open>writer.m()\<close> for one of the two: the attribute is looked up first, and an object
  without it raises \<^verbatim>\<open>AttributeError\<close>.
\<close>

definition no_attribute :: "writer_call \<Rightarrow> exn" where
  "no_attribute c =
     Exn AttributeError
       ([CHR 0x27] @ ''PdfWriter'' @ [CHR 0x27] @ '' object has no attribute '' @
        [CHR 0x27] @ method_name c @ [CHR 0x27])"

definition call_writer :: "writer_call \<Rightarrow> 'p pdf_writer \<Rightarrow> exn + 'p pdf_writer" where
  "call_writer c w =
     (if c \<in> set PdfWriter_methods then Inr (w\<lparr>w_calls := w_calls w @ [c]\<rparr>)
      else Inl (no_attribute c))"

text \<open>An artifact of the processed folder: a written PDF, or an image saved with a format and a resolution.\<close>

datatype 'p artifact =
    Pdf_file "'p pdf_writer"
  | Image_file string int

type_synonym 'p processed = "string \<rightharpoonup> 'p artifact"

text \<open>
  \<^verbatim>\<open>with open(output_path, 'wb') as output_file: writer.write(output_file)\<close> once the file
  is open: the artifact under that name is the written PDF, whatever was there before.
\<close>

definition write_pdf :: "string \<Rightarrow> 'p pdf_writer \<Rightarrow> 'p processed \<Rightarrow> 'p processed" where
  "write_pdf output_filename writer out = out(output_filename \<mapsto> Pdf_file writer)"

text \<open>
  What the platform decides and the repository does not: the size in bytes of a written
  PDF, float division of two integers and multiplication of a float by an integer,
  whether PIL manages to save an image under a name, and what \<^verbatim>\<open>open(output_path, 'wb')\<close>
  raises for an output name built from an input name, if anything: the text of the
  \<^verbatim>\<open>OSError\<close> (a \<^verbatim>\<open>FileNotFoundError\<close>, which is an \<^verbatim>\<open>OSError\<close>, where a directory is missing).
\<close>

record ('p, 'f) platform =
  written_size :: "'p pdf_writer \<Rightarrow> nat"
  truediv :: "int \<Rightarrow> int \<Rightarrow> 'f"
  float_mul :: "'f \<Rightarrow> int \<Rightarrow> 'f"
  image_saved :: "string \<Rightarrow> bool"
  open_error :: "string \<Rightarrow> string option"

text \<open>
  The processed folder exists and is writable. The name that merge writes to,
  \<^verbatim>\<open>merged_\<close> with the timestamp and \<^verbatim>\<open>.pdf\<close>, is 26 characters without a directory part
  whatever the request, and \<open>write_pdf\<close> creates it. The names of split and compress
  start with the input name less its extension: they keep its directory part and its
  length, and \<^verbatim>\<open>open\<close> raises where the directory does not exist or the name is too long
  for the file system. Nothing is written then. An image is opened by PIL, inside the
  \<^verbatim>\<open>try\<close> of its page: \<open>image_saved\<close> covers it.
\<close>

definition create_pdf ::
  "('p, 'f) platform \<Rightarrow> string \<Rightarrow> 'p pdf_writer \<Rightarrow> 'p processed \<Rightarrow> exn + 'p processed" where
  "create_pdf pf output_filename writer out =
     (case open_error pf output_filename of
        Some msg \<Rightarrow> Inl (Exn OSError msg)
      | None \<Rightarrow> Inr (write_pdf output_filename writer out))"

text \<open>
  An engine call returns what it returns or raises, and the processed folder as it leaves
  it: files written before a failure stay.
\<close>

type_synonym ('a, 'p) outcome = "(exn + 'a) \<times> 'p processed"

section \<open>The engine\<close>

subsection \<open>merge\<close>

text \<open>The loop of \<^verbatim>\<open>merge_pdfs\<close> over \<^verbatim>\<open>file_list\<close>; the first failure aborts it.\<close>

fun merge_loop :: "'p uploads \<Rightarrow> string list \<Rightarrow> 'p pdf_writer \<Rightarrow> exn + 'p pdf_writer" where
  "merge_loop up [] writer = Inr writer"
| "merge_loop up (filename # rest) writer =
     (case up filename of
        None \<Rightarrow> Inl (Exn FileNotFoundError (''File not found: '' @ filename))
      | Some f \<Rightarrow>
          (case PdfReader f of
             Inl e \<Rightarrow> Inl e
           | Inr pages \<Rightarrow> merge_loop up rest (fold add_page pages writer)))"

text \<open>\<^verbatim>\<open>f"merged_{timestamp}.pdf"\<close> with the timestamp of the call.\<close>

definition merged_filename :: "datetime \<Rightarrow> string" where
  "merged_filename now = ''merged_'' @ strftime_stamp now @ ''.pdf''"

definition merge_pdfs ::
  "string list \<Rightarrow> 'p uploads \<Rightarrow> 'p processed \<Rightarrow> datetime \<Rightarrow> (string, 'p) outcome" where
  "merge_pdfs file_list up out now =
     (case merge_loop up file_list PdfWriter of
        Inl e \<Rightarrow> (Inl e, out)
      | Inr writer \<Rightarrow>
          (let output_filename = merged_filename now
           in (Inr output_filename, write_pdf output_filename writer out)))"

subsection \<open>split\<close>

text \<open>The page numbers (0-based) that \<^verbatim>\<open>split_pdf\<close> iterates over.\<close>

definition pages_to_split :: "json \<Rightarrow> int \<Rightarrow> exn + int list" where
  "pages_to_split page_range total_pages =
     (if py_truthy page_range then
        (case page_range of
           JObj d \<Rightarrow>
             (case as_int (dict_get d ''start'' (JInt 1)) of
                Inl e \<Rightarrow> Inl e
              | Inr s \<Rightarrow>
                  (case as_int (dict_get d ''end'' (JInt total_pages)) of
                     Inl e \<Rightarrow> Inl e
                   | Inr e \<Rightarrow>
                       (let start_page = s - 1;
                            end_page = min e total_pages
                        in Inr (py_range start_page end_page))))
         | other \<Rightarrow> Inl (Exn AttributeError ''object has no attribute get''))
      else Inr (py_range 0 total_pages))"

text \<open>\<^verbatim>\<open>f"{base_name}_page_{page_num + 1}_{timestamp}.pdf"\<close>\<close>

definition split_filename :: "string \<Rightarrow> int \<Rightarrow> string \<Rightarrow> string" where
  "split_filename base_name page_num timestamp =
     base_name @ ''_page_'' @ str_int (page_num + 1) @ ''_'' @ timestamp @ ''.pdf''"

text \<open>The loop over the page numbers: the first failure aborts it, and the files written so far stay.\<close>

fun split_loop ::
  "('p, 'f) platform \<Rightarrow> 'p list \<Rightarrow> string \<Rightarrow> string \<Rightarrow> int list \<Rightarrow> string list \<Rightarrow>
   'p processed \<Rightarrow> (string list, 'p) outcome" where
  "split_loop pf pages base_name timestamp [] output_files out = (Inr output_files, out)"
| "split_loop pf pages base_name timestamp (page_num # rest) output_files out =
     (case py_getitem pages page_num of
        Inl e \<Rightarrow> (Inl e, out)
      | Inr page \<Rightarrow>
          (let writer = add_page page PdfWriter;
               output_filename = split_filename base_name page_num timestamp
           in case create_pdf pf output_filename writer out of
                Inl e \<Rightarrow> (Inl e, out)
              | Inr out' \<Rightarrow>
                  split_loop pf pages base_name timestamp rest
                    (output_files @ [output_filename]) out'))"

definition split_pdf ::
  "('p, 'f) platform \<Rightarrow> string \<Rightarrow> 'p uploads \<Rightarrow> 'p processed \<Rightarrow> json \<Rightarrow> datetime \<Rightarrow>
   (string list, 'p) outcome" where
  "split_pdf pf filename up out page_range now =
     (case up filename of
        None \<Rightarrow> (Inl (Exn FileNotFoundError (''File not found: '' @ filename)), out)
      | Some f \<Rightarrow>
          (case PdfReader f of
             Inl e \<Rightarrow> (Inl e, out)
           | Inr pages \<Rightarrow>
               (case pages_to_split page_range (int (length pages)) of
                  Inl e \<Rightarrow> (Inl e, out)
                | Inr nums \<Rightarrow>
                    split_loop pf pages (splitext_root filename) (strftime_stamp now) nums [] out)))"

subsection \<open>convert to images\<close>

definition supported_formats :: "string list" where
  "supported_formats = [''PNG'', ''JPEG'', ''TIFF'']"

text \<open>\<^verbatim>\<open>f"{base_name}_page_{i + 1}_{timestamp}.{format.lower()}"\<close>\<close>

definition image_filename :: "string \<Rightarrow> nat \<Rightarrow> string \<Rightarrow> string \<Rightarrow> string" where
  "image_filename base_name i timestamp format =
     base_name @ ''_page_'' @ str_nat (i + 1) @ ''_'' @ timestamp @ ''.'' @ lower format"

text \<open>The loop over the pages: a page whose image cannot be saved is skipped.\<close>

fun convert_loop ::
  "('p, 'f) platform \<Rightarrow> string \<Rightarrow> string \<Rightarrow> string \<Rightarrow> int \<Rightarrow> nat list \<Rightarrow> string list \<Rightarrow>
   'p processed \<Rightarrow> string list \<times> 'p processed" where
  "convert_loop pf base_name timestamp format dpi [] output_files out = (output_files, out)"
| "convert_loop pf base_name timestamp format dpi (i # rest) output_files out =
     (let output_filename = image_filename base_name i timestamp format
      in if image_saved pf output_filename
         then convert_loop pf base_name timestamp format dpi rest (output_files @ [output_filename])
                (out(output_filename \<mapsto> Image_file (upper format) dpi))
         else convert_loop pf base_name timestamp format dpi rest output_files out)"

definition convert_to_images ::
  "('p, 'f) platform \<Rightarrow> string \<Rightarrow> 'p uploads \<Rightarrow> 'p processed \<Rightarrow> string \<Rightarrow> int \<Rightarrow> datetime \<Rightarrow>
   (string list, 'p) outcome" where
  "convert_to_images pf filename up out format dpi now =
     (case up filename of
        None \<Rightarrow> (Inl (Exn FileNotFoundError (''File not found: '' @ filename)), out)
      | Some f \<Rightarrow>
          if upper format \<notin> set supported_formats
          then (Inl (Exn ValueError
                  (''Unsupported format: '' @ format @ ''. Supported: '' @
                   repr_list supported_formats)), out)
          else
            (case PdfReader f of
               Inl e \<Rightarrow> (Inl e, out)
             | Inr pages \<Rightarrow>
                 (case convert_loop pf (splitext_root filename) (strftime_stamp now) format dpi
                         [0 ..< length pages] [] out of
                    (output_files, out') \<Rightarrow>
                      if output_files = []
                      then (Inl (Exn PlainException ''No pages could be converted to images''), out')
                      else (Inr output_files, out'))))"

subsection \<open>compress\<close>

text \<open>\<^verbatim>\<open>f"{base_name}_compressed_{timestamp}.pdf"\<close>\<close>

definition compressed_filename :: "string \<Rightarrow> string \<Rightarrow> string" where
  "compressed_filename base_name timestamp = base_name @ ''_compressed_'' @ timestamp @ ''.pdf''"

text \<open>
  The branch on \<^verbatim>\<open>quality\<close>: the calls made on the writer after the pages are copied. A
  call that raises ends the branch.
\<close>

definition apply_quality :: "string \<Rightarrow> 'p pdf_writer \<Rightarrow> exn + 'p pdf_writer" where
  "apply_quality quality writer =
     (if quality = ''high'' then call_writer Compress_identical_objects writer
      else if quality = ''medium'' then
        (case call_writer Compress_identical_objects writer of
           Inl e \<Rightarrow> Inl e
         | Inr w \<Rightarrow> call_writer Remove_duplicates w)
      else
        (case call_writer Compress_identical_objects writer of
           Inl e \<Rightarrow> Inl e
         | Inr w \<Rightarrow> call_writer Remove_duplicates w))"

definition compress_pdf ::
  "('p, 'f) platform \<Rightarrow> string \<Rightarrow> 'p uploads \<Rightarrow> 'p processed \<Rightarrow> string \<Rightarrow> datetime \<Rightarrow>
   (string \<times> 'f, 'p) outcome" where
  "compress_pdf pf filename up out quality now =
     (case up filename of
        None \<Rightarrow> (Inl (Exn FileNotFoundError (''File not found: '' @ filename)), out)
      | Some f \<Rightarrow>
          (case PdfReader f of
             Inl e \<Rightarrow> (Inl e, out)
           | Inr pages \<Rightarrow>
               (case apply_quality quality (fold add_page pages PdfWriter) of
                  Inl e \<Rightarrow> (Inl e, out)
                | Inr writer \<Rightarrow>
                    (let output_filename =
                           compressed_filename (splitext_root filename) (strftime_stamp now)
                     in case create_pdf pf output_filename writer out of
                          Inl e \<Rightarrow> (Inl e, out)
                        | Inr out' \<Rightarrow>
                            (let original_size = int (file_size f);
                                 compressed_size = int (written_size pf writer)
                             in if original_size = 0
                                then (Inl (Exn ZeroDivisionError ''division by zero''), out')
                                else (Inr (output_filename,
                                           float_mul pf
                                             (truediv pf (original_size - compressed_size)
                                                original_size) 100),
                                      out'))))))"

section \<open>The request validator\<close>

text \<open>
  What a validator returns: \<^verbatim>\<open>{'valid': True, ...}\<close> with its payload, or
  \<^verbatim>\<open>{'valid': False, 'error': message}\<close>.
\<close>

datatype 'a validation = Valid 'a | Invalid string

text \<open>
  The characters that \<^verbatim>\<open>str.strip()\<close> removes, those for which \<^verbatim>\<open>str.isspace\<close> holds:
  U+0009 to U+000D, U+001C to U+0020, U+0085, U+00A0, U+1680, U+2000 to U+200A, U+2028,
  U+2029, U+202F, U+205F and U+3000.
\<close>

definition whitespace :: "string list" where
  "whitespace =
     [[CHR 0x09], [CHR 0x0A], [CHR 0x0B], [CHR 0x0C], [CHR 0x0D],
      [CHR 0x1C], [CHR 0x1D], [CHR 0x1E], [CHR 0x1F], [CHR 0x20],
      [CHR 0xC2, CHR 0x85], [CHR 0xC2, CHR 0xA0], [CHR 0xE1, CHR 0x9A, CHR 0x80],
      [CHR 0xE2, CHR 0x80, CHR 0x80], [CHR 0xE2, CHR 0x80, CHR 0x81],
      [CHR 0xE2, CHR 0x80, CHR 0x82], [CHR 0xE2, CHR 0x80, CHR 0x83],
      [CHR 0xE2, CHR 0x80, CHR 0x84], [CHR 0xE2, CHR 0x80, CHR 0x85],
      [CHR 0xE2, CHR 0x80, CHR 0x86], [CHR 0xE2, CHR 0x80, CHR 0x87],
      [CHR 0xE2, CHR 0x80, CHR 0x88], [CHR 0xE2, CHR 0x80, CHR 0x89],
      [CHR 0xE2, CHR 0x80, CHR 0x8A], [CHR 0xE2, CHR 0x80, CHR 0xA8],
      [CHR 0xE2, CHR 0x80, CHR 0xA9], [CHR 0xE2, CHR 0x80, CHR 0xAF],
      [CHR 0xE2, CHR 0x81, CHR 0x9F], [CHR 0xE3, CHR 0x80, CHR 0x80]]"

text \<open>\<^verbatim>\<open>not s.strip()\<close>: the string is made of such characters only.\<close>

fun blank :: "string \<Rightarrow> bool" where
  "blank [] = True"
| "blank (c # cs) =
     (case find (\<lambda>w. take (length w) (c # cs) = w) whitespace of
        Some w \<Rightarrow> blank (drop (length w - 1) cs)
      | None \<Rightarrow> False)"

text \<open>\<^verbatim>\<open>p in s\<close> for two strings: \<open>p\<close> occurs in \<open>s\<close>.\<close>

fun occurs_in :: "string \<Rightarrow> string \<Rightarrow> bool" where
  "occurs_in p [] = (p = [])"
| "occurs_in p (c # cs) = (take (length p) (c # cs) = p \<or> occurs_in p cs)"

text \<open>
  \<^verbatim>\<open>key in x\<close> for a string \<open>key\<close>: a key of a dict, an element of a list, a part of a
  string; anything else is not iterable.
\<close>

fun py_contains :: "json \<Rightarrow> string \<Rightarrow> exn + bool" where
  "py_contains (JObj d) k = Inr (map_of d k \<noteq> None)"
| "py_contains (JList xs) k = Inr (JStr k \<in> set xs)"
| "py_contains (JStr s) k = Inr (occurs_in k s)"
| "py_contains other k = Inl (Exn TypeError ''argument is not iterable'')"

text \<open>\<^verbatim>\<open>x[key]\<close> for a string \<open>key\<close>: only a dict can be indexed by a string.\<close>

fun py_subscript :: "json \<Rightarrow> string \<Rightarrow> exn + json" where
  "py_subscript (JObj d) k =
     (case map_of d k of
        None \<Rightarrow> Inl (Exn KeyError ([CHR 0x27] @ k @ [CHR 0x27]))
      | Some v \<Rightarrow> Inr v)"
| "py_subscript other k = Inl (Exn TypeError ''indices must be integers'')"

text \<open>\<^verbatim>\<open>[param for param in required if param not in data]\<close>\<close>

fun missing_params :: "json \<Rightarrow> string list \<Rightarrow> exn + string list" where
  "missing_params data [] = Inr []"
| "missing_params data (param # rest) =
     (case py_contains data param of
        Inl e \<Rightarrow> Inl e
      | Inr present \<Rightarrow>
          (case missing_params data rest of
             Inl e \<Rightarrow> Inl e
           | Inr missing \<Rightarrow> Inr (if present then missing else param # missing)))"

text \<open>
  The blocks of \<^verbatim>\<open>validate_operation_params\<close>, one for each optional key. A block
  raises, returns the error message of the \<^verbatim>\<open>return\<close> it reaches, or falls through
  (\<open>None\<close>) to the next block.
\<close>

definition valid_filename_item :: "json \<Rightarrow> bool" where
  "valid_filename_item x = (case x of JStr s \<Rightarrow> \<not> blank s | other \<Rightarrow> False)"

definition check_files :: "json \<Rightarrow> exn + string option" where
  "check_files data =
     (case py_contains data ''files'' of
        Inl e \<Rightarrow> Inl e
      | Inr False \<Rightarrow> Inr None
      | Inr True \<Rightarrow>
          (case py_subscript data ''files'' of
             Inl e \<Rightarrow> Inl e
           | Inr (JList xs) \<Rightarrow>
               if xs = [] then Inr (Some ''Files list cannot be empty'')
               else if \<not> list_all valid_filename_item xs
                 then Inr (Some ''Invalid filename in files list'')
               else Inr None
           | Inr other \<Rightarrow> Inr (Some ''Files parameter must be a list'')))"

definition check_file :: "json \<Rightarrow> exn + string option" where
  "check_file data =
     (case py_contains data ''file'' of
        Inl e \<Rightarrow> Inl e
      | Inr False \<Rightarrow> Inr None
      | Inr True \<Rightarrow>
          (case py_subscript data ''file'' of
             Inl e \<Rightarrow> Inl e
           | Inr v \<Rightarrow>
               if \<not> valid_filename_item v
               then Inr (Some ''File parameter must be a valid filename'')
               else Inr None))"

text \<open>\<^verbatim>\<open>not isinstance(x, int) or x < 1\<close>, and the same against other bounds.\<close>

definition int_below :: "json \<Rightarrow> int \<Rightarrow> bool" where
  "int_below x bound = (case as_int x of Inr i \<Rightarrow> i < bound | Inl e \<Rightarrow> False)"

definition int_above :: "json \<Rightarrow> int \<Rightarrow> bool" where
  "int_above x bound = (case as_int x of Inr i \<Rightarrow> bound < i | Inl e \<Rightarrow> False)"

text \<open>
  \<^verbatim>\<open>'start' in pages and (not isinstance(pages['start'], int) or pages['start'] < 1)\<close>,
  and \<^verbatim>\<open>'start' in pages and 'end' in pages and pages['start'] > pages['end']\<close>.
\<close>

definition not_positive_int :: "json option \<Rightarrow> bool" where
  "not_positive_int v =
     (case v of None \<Rightarrow> False | Some x \<Rightarrow> \<not> isinstance_int x \<or> int_below x 1)"

definition start_after_end :: "json option \<Rightarrow> json option \<Rightarrow> bool" where
  "start_after_end start_v end_v =
     (case (start_v, end_v) of
        (Some x, Some y) \<Rightarrow>
          (case (as_int x, as_int y) of (Inr s, Inr e) \<Rightarrow> e < s | other \<Rightarrow> False)
      | other \<Rightarrow> False)"

definition check_pages :: "json \<Rightarrow> exn + string option" where
  "check_pages data =
     (case py_contains data ''pages'' of
        Inl e \<Rightarrow> Inl e
      | Inr False \<Rightarrow> Inr None
      | Inr True \<Rightarrow>
          (case py_subscript data ''pages'' of
             Inl e \<Rightarrow> Inl e
           | Inr (JObj pages) \<Rightarrow>
               if not_positive_int (map_of pages ''start'')
                 then Inr (Some ''Start page must be a positive integer'')
               else if not_positive_int (map_of pages ''end'')
                 then Inr (Some ''End page must be a positive integer'')
               else if start_after_end (map_of pages ''start'') (map_of pages ''end'')
                 then Inr (Some ''Start page cannot be greater than end page'')
               else Inr None
           | Inr other \<Rightarrow> Inr (Some ''Pages parameter must be an object'')))"

text \<open>\<^verbatim>\<open>x.upper()\<close> and \<^verbatim>\<open>x.lower()\<close>: only a string has them.\<close>

fun py_upper :: "json \<Rightarrow> exn + string" where
  "py_upper (JStr s) = Inr (upper s)"
| "py_upper other = Inl (Exn AttributeError ''object has no attribute upper'')"

fun py_lower :: "json \<Rightarrow> exn + string" where
  "py_lower (JStr s) = Inr (lower s)"
| "py_lower other = Inl (Exn AttributeError ''object has no attribute lower'')"

definition check_format :: "json \<Rightarrow> exn + string option" where
  "check_format data =
     (case py_contains data ''format'' of
        Inl e \<Rightarrow> Inl e
      | Inr False \<Rightarrow> Inr None
      | Inr True \<Rightarrow>
          (case py_subscript data ''format'' of
             Inl e \<Rightarrow> Inl e
           | Inr v \<Rightarrow>
               (let valid_formats = [''PNG'', ''JPEG'', ''TIFF''] in
                case py_upper v of
                  Inl e \<Rightarrow> Inl e
                | Inr u \<Rightarrow>
                    if u \<notin> set valid_formats
                    then Inr (Some (''Invalid format. Supported: '' @ join '', '' valid_formats))
                    else Inr None)))"

definition check_dpi :: "json \<Rightarrow> exn + string option" where
  "check_dpi data =
     (case py_contains data ''dpi'' of
        Inl e \<Rightarrow> Inl e
      | Inr False \<Rightarrow> Inr None
      | Inr True \<Rightarrow>
          (case py_subscript data ''dpi'' of
             Inl e \<Rightarrow> Inl e
           | Inr dpi \<Rightarrow>
               if \<not> isinstance_int dpi \<or> int_below dpi 72 \<or> int_above dpi 600
               then Inr (Some ''DPI must be an integer between 72 and 600'')
               else Inr None))"

definition check_quality :: "json \<Rightarrow> exn + string option" where
  "check_quality data =
     (case py_contains data ''quality'' of
        Inl e \<Rightarrow> Inl e
      | Inr False \<Rightarrow> Inr None
      | Inr True \<Rightarrow>
          (case py_subscript data ''quality'' of
             Inl e \<Rightarrow> Inl e
           | Inr v \<Rightarrow>
               (let valid_qualities = [''low'', ''medium'', ''high''] in
                case py_lower v of
                  Inl e \<Rightarrow> Inl e
                | Inr l \<Rightarrow>
                    if l \<notin> set valid_qualities
                    then Inr (Some (''Invalid quality. Supported: '' @ join '', '' valid_qualities))
                    else Inr None)))"

text \<open>The blocks in the order of the source: the first that returns or raises ends the function.\<close>

fun first_return :: "(exn + string option) list \<Rightarrow> exn + string option" where
  "first_return [] = Inr None"
| "first_return (Inl e # rest) = Inl e"
| "first_return (Inr (Some msg) # rest) = Inr (Some msg)"
| "first_return (Inr None # rest) = first_return rest"

text \<open>The body of the \<^verbatim>\<open>try\<close> of \<^verbatim>\<open>validate_operation_params\<close>.\<close>

definition validate_operation_params_body :: "json \<Rightarrow> string list \<Rightarrow> exn + json validation" where
  "validate_operation_params_body data required =
     (if \<not> py_truthy data then Inr (Invalid ''No data provided'')
      else
        (case (if required \<noteq> [] then missing_params data required else Inr []) of
           Inl e \<Rightarrow> Inl e
         | Inr missing \<Rightarrow>
             if missing \<noteq> []
             then Inr (Invalid (''Missing required parameters: '' @ join '', '' missing))
             else
               (case first_return
                       [check_files data, check_file data, check_pages data,
                        check_format data, check_dpi data, check_quality data] of
                  Inl e \<Rightarrow> Inl e
                | Inr (Some msg) \<Rightarrow> Inr (Invalid msg)
                | Inr None \<Rightarrow> Inr (Valid data))))"

text \<open>
  \<^verbatim>\<open>validate_operation_params\<close>: the body under \<^verbatim>\<open>except Exception\<close>. The result is what
  the caller gets: \<open>Inl\<close> would be an exception that leaves the function.
\<close>

definition validate_operation_params :: "json \<Rightarrow> string list \<Rightarrow> exn + json validation" where
  "validate_operation_params data required =
     (case validate_operation_params_body data required of
        Inl e \<Rightarrow> Inr (Invalid ''Parameter validation failed'')
      | Inr result \<Rightarrow> Inr result)"

text \<open>
  An uploaded file as \<^verbatim>\<open>validate_pdf_file\<close> sees it: the declared name, and the stream,
  which either raises on \<^verbatim>\<open>seek\<close>, \<^verbatim>\<open>tell\<close> and \<^verbatim>\<open>read\<close> or holds a content with a size and
  a parse.
\<close>

record 'p file_storage =
  fs_filename :: "string option"
  fs_stream :: "string + 'p upload"

definition MAX_FILE_SIZE :: nat where
  "MAX_FILE_SIZE = 50 * 1024 * 1024"

definition MIN_FILE_SIZE :: nat where
  "MIN_FILE_SIZE = 1024"

text \<open>\<^verbatim>\<open>s.endswith(suffix)\<close>\<close>

definition endswith :: "string \<Rightarrow> string \<Rightarrow> bool" where
  "endswith s suffix \<longleftrightarrow> length suffix \<le> length s \<and> drop (length s - length suffix) s = suffix"

text \<open>
  The body of the outer \<^verbatim>\<open>try\<close> of \<^verbatim>\<open>validate_pdf_file\<close>. The payload of a success is the
  size and the page count. \<open>None\<close> for the file is a missing or false file object, which
  for a \<^verbatim>\<open>FileStorage\<close> means an empty name.
\<close>

definition validate_pdf_file_body ::
  "'p file_storage option \<Rightarrow> exn + (nat \<times> nat option) validation" where
  "validate_pdf_file_body file =
     (case file of
        None \<Rightarrow> Inr (Invalid ''No file provided'')
      | Some f \<Rightarrow>
          (case fs_filename f of
             None \<Rightarrow> Inr (Invalid ''No file provided'')
           | Some name \<Rightarrow>
               if name = [] then Inr (Invalid ''No file provided'')
               else if \<not> endswith (lower name) ''.pdf'' then Inr (Invalid ''File must be a PDF'')
               else
                 (case fs_stream f of
                    Inl msg \<Rightarrow> Inl (Exn OSError msg)
                  | Inr content \<Rightarrow>
                      if file_size content > MAX_FILE_SIZE
                        then Inr (Invalid (''File too large. Maximum size: '' @
                                    str_nat (MAX_FILE_SIZE div (1024 * 1024)) @ ''MB''))
                      else if file_size content < MIN_FILE_SIZE
                        then Inr (Invalid (''File too small. Minimum size: '' @
                                    str_nat MIN_FILE_SIZE @ ''B''))
                      else
                        (case PdfReader content of
                           Inl pdf_error \<Rightarrow>
                             Inr (Invalid (''Invalid PDF file: '' @ str_exn pdf_error))
                         | Inr pages \<Rightarrow>
                             if length pages = 0
                             then Inr (Invalid ''PDF file contains no pages'')
                             else Inr (Valid (file_size content, Some (length pages)))))))"

text \<open>\<^verbatim>\<open>validate_pdf_file\<close>: the body under \<^verbatim>\<open>except Exception\<close>.\<close>

definition validate_pdf_file ::
  "'p file_storage option \<Rightarrow> exn + (nat \<times> nat option) validation" where
  "validate_pdf_file file =
     (case validate_pdf_file_body file of
        Inl e \<Rightarrow> Inr (Invalid ''File validation failed'')
      | Inr result \<Rightarrow> Inr result)"

section \<open>The job ledger\<close>

text \<open>
  A row of \<^verbatim>\<open>ProcessingJob\<close>. The two text columns hold \<^verbatim>\<open>json.dumps\<close> of a value; the
  model keeps the value, and \<open>None\<close> for a column never set.
\<close>

record job =
  job_id :: nat
  user_id :: nat
  operation :: string
  input_files :: "json option"
  output_files :: "json option"
  status :: string
  error_message :: "string option"
  created_at :: "datetime option"
  completed_at :: "datetime option"

text \<open>The table, in the order the rows were added; nothing in this code deletes a row.\<close>

type_synonym ledger = "job list"

text \<open>The primary key the database gives the next row.\<close>

definition next_id :: "ledger \<Rightarrow> nat" where
  "next_id db = Suc (fold max (map job_id db) 0)"

text \<open>
  \<^verbatim>\<open>ProcessingJob(user_id=..., operation=..., input_files=..., status='processing')\<close>
  followed by \<^verbatim>\<open>db.session.add(job)\<close> and \<^verbatim>\<open>db.session.commit()\<close>.
\<close>

definition new_job :: "ledger \<Rightarrow> nat \<Rightarrow> string \<Rightarrow> json \<Rightarrow> datetime \<Rightarrow> job" where
  "new_job db current_user op inputs utcnow =
     \<lparr>job_id = next_id db, user_id = current_user, operation = op, input_files = Some inputs,
      output_files = None, status = ''processing'', error_message = None,
      created_at = Some utcnow, completed_at = None\<rparr>"

definition update_job :: "nat \<Rightarrow> (job \<Rightarrow> job) \<Rightarrow> ledger \<Rightarrow> ledger" where
  "update_job ident f db = map (\<lambda>j. if job_id j = ident then f j else j) db"

text \<open>The two updates of a route, each followed by a commit.\<close>

definition mark_completed :: "nat \<Rightarrow> json \<Rightarrow> datetime \<Rightarrow> ledger \<Rightarrow> ledger" where
  "mark_completed ident outputs utcnow db =
     update_job ident
       (\<lambda>j. j\<lparr>status := ''completed'', output_files := Some outputs, completed_at := Some utcnow\<rparr>) db"

definition mark_failed :: "nat \<Rightarrow> exn \<Rightarrow> ledger \<Rightarrow> ledger" where
  "mark_failed ident e db =
     update_job ident (\<lambda>j. j\<lparr>status := ''failed'', error_message := Some (str_exn e)\<rparr>) db"

text \<open>\<^verbatim>\<open>ProcessingJob.query.get_or_404(job_id)\<close>: the row, or \<^verbatim>\<open>abort(404)\<close>.\<close>

definition get_or_404 :: "ledger \<Rightarrow> nat \<Rightarrow> exn + job" where
  "get_or_404 db ident =
     (case find (\<lambda>j. job_id j = ident) db of
        None \<Rightarrow> Inl (Exn NotFound ''404 Not Found: The requested URL was not found on the server.'')
      | Some j \<Rightarrow> Inr j)"

section \<open>The routes\<close>

text \<open>
  A response is the status code and the body. Of a success body the constant
  \<^verbatim>\<open>message\<close> is left out. The view of a job holds its id, operation, status and creation
  time, and the completion time, error and output files when the route adds them.
\<close>

datatype 'f body =
    Error_body string
  | Merge_body nat string
  | Split_body nat "string list"
  | Convert_body nat "string list"
  | Compress_body nat string 'f
  | Status_body nat string string datetime "datetime option" "string option" "json option"

type_synonym 'f response = "nat \<times> 'f body"

text \<open>
  The clock readings of one request: \<^verbatim>\<open>datetime.now()\<close> in the engine, \<^verbatim>\<open>datetime.utcnow\<close>
  when the row is created and when it is completed.
\<close>

record clock =
  engine_now :: datetime
  created_utc :: datetime
  completed_utc :: datetime

text \<open>
  \<^verbatim>\<open>get_job_status\<close>, behind \<^verbatim>\<open>require_api_key\<close>: \<open>current_user\<close> is the id of the
  authenticated user. The \<^verbatim>\<open>try\<close> wraps the whole body, \<^verbatim>\<open>get_or_404\<close> included.
\<close>

definition get_job_status_body :: "ledger \<Rightarrow> nat \<Rightarrow> nat \<Rightarrow> exn + 'f response" where
  "get_job_status_body db current_user ident =
     (case get_or_404 db ident of
        Inl e \<Rightarrow> Inl e
      | Inr j \<Rightarrow>
          if user_id j \<noteq> current_user then Inr (403, Error_body ''Unauthorized'')
          else
            (case created_at j of
               None \<Rightarrow> Inl (Exn AttributeError ''object has no attribute isoformat'')
             | Some created \<Rightarrow>
                 Inr (200,
                   Status_body (job_id j) (operation j) (status j) created
                     (completed_at j)
                     (case error_message j of
                        None \<Rightarrow> None
                      | Some msg \<Rightarrow> if msg = [] then None else Some msg)
                     (if output_files j \<noteq> None \<and> status j = ''completed''
                      then output_files j else None))))"

definition get_job_status :: "ledger \<Rightarrow> nat \<Rightarrow> nat \<Rightarrow> 'f response" where
  "get_job_status db current_user ident =
     (case get_job_status_body db current_user ident of
        Inl e \<Rightarrow> (500, Error_body ''Internal server error'')
      | Inr response \<Rightarrow> response)"

text \<open>
  The arguments a route hands to the engine are values of the request body. The engine
  joins a file name to a folder and compares or formats the rest, which is defined on
  strings and integers; any other type ends in a \<^verbatim>\<open>TypeError\<close>.
\<close>

fun as_str :: "json \<Rightarrow> exn + string" where
  "as_str (JStr s) = Inr s"
| "as_str other = Inl (Exn TypeError ''expected str'')"

fun as_str_items :: "json list \<Rightarrow> exn + string list" where
  "as_str_items [] = Inr []"
| "as_str_items (x # xs) =
     (case as_str x of
        Inl e \<Rightarrow> Inl e
      | Inr s \<Rightarrow> (case as_str_items xs of Inl e \<Rightarrow> Inl e | Inr ss \<Rightarrow> Inr (s # ss)))"

fun as_str_list :: "json \<Rightarrow> exn + string list" where
  "as_str_list (JList xs) = as_str_items xs"
| "as_str_list other = Inl (Exn TypeError ''expected list'')"

text \<open>\<^verbatim>\<open>data.get(key, default)\<close>: only a dict has it.\<close>

fun py_get :: "json \<Rightarrow> string \<Rightarrow> json \<Rightarrow> exn + json" where
  "py_get (JObj d) k dflt = Inr (dict_get d k dflt)"
| "py_get other k dflt = Inl (Exn AttributeError ''object has no attribute get'')"

text \<open>The call of the engine inside the inner \<^verbatim>\<open>try\<close> of each route, arguments included.\<close>

definition merge_invocation ::
  "json \<Rightarrow> 'p uploads \<Rightarrow> 'p processed \<Rightarrow> datetime \<Rightarrow> (string, 'p) outcome" where
  "merge_invocation data up out now =
     (case py_subscript data ''files'' of
        Inl e \<Rightarrow> (Inl e, out)
      | Inr v \<Rightarrow>
          (case as_str_list v of
             Inl e \<Rightarrow> (Inl e, out)
           | Inr file_list \<Rightarrow> merge_pdfs file_list up out now))"

definition split_invocation ::
  "('p, 'f) platform \<Rightarrow> json \<Rightarrow> 'p uploads \<Rightarrow> 'p processed \<Rightarrow> datetime \<Rightarrow>
   (string list, 'p) outcome" where
  "split_invocation pf data up out now =
     (case py_subscript data ''file'' of
        Inl e \<Rightarrow> (Inl e, out)
      | Inr v \<Rightarrow>
          (case as_str v of
             Inl e \<Rightarrow> (Inl e, out)
           | Inr filename \<Rightarrow>
               (case py_get data ''pages'' JNull of
                  Inl e \<Rightarrow> (Inl e, out)
                | Inr page_range \<Rightarrow> split_pdf pf filename up out page_range now)))"

definition convert_invocation ::
  "('p, 'f) platform \<Rightarrow> json \<Rightarrow> 'p uploads \<Rightarrow> 'p processed \<Rightarrow> datetime \<Rightarrow>
   (string list, 'p) outcome" where
  "convert_invocation pf data up out now =
     (case py_subscript data ''file'' of
        Inl e \<Rightarrow> (Inl e, out)
      | Inr v \<Rightarrow>
          (case as_str v of
             Inl e \<Rightarrow> (Inl e, out)
           | Inr filename \<Rightarrow>
               (case py_get data ''format'' (JStr ''PNG'') of
                  Inl e \<Rightarrow> (Inl e, out)
                | Inr fv \<Rightarrow>
                    (case py_get data ''dpi'' (JInt 300) of
                       Inl e \<Rightarrow> (Inl e, out)
                     | Inr dv \<Rightarrow>
                         (case as_str fv of
                            Inl e \<Rightarrow> (Inl e, out)
                          | Inr format \<Rightarrow>
                              (case as_int dv of
                                 Inl e \<Rightarrow> (Inl e, out)
                               | Inr dpi \<Rightarrow>
                                   convert_to_images pf filename up out format dpi now))))))"

definition compress_invocation ::
  "('p, 'f) platform \<Rightarrow> json \<Rightarrow> 'p uploads \<Rightarrow> 'p processed \<Rightarrow> datetime \<Rightarrow>
   (string \<times> 'f, 'p) outcome" where
  "compress_invocation pf data up out now =
     (case py_subscript data ''file'' of
        Inl e \<Rightarrow> (Inl e, out)
      | Inr v \<Rightarrow>
          (case as_str v of
             Inl e \<Rightarrow> (Inl e, out)
           | Inr filename \<Rightarrow>
               (case py_get data ''quality'' (JStr ''medium'') of
                  Inl e \<Rightarrow> (Inl e, out)
                | Inr qv \<Rightarrow>
                    (case as_str qv of
                       Inl e \<Rightarrow> (Inl e, out)
                     | Inr quality \<Rightarrow> compress_pdf pf filename up out quality now))))"

text \<open>
  The four operation routes, behind \<^verbatim>\<open>require_api_key\<close>. The state is the ledger and the
  processed folder; the uploads folder is only read.
\<close>

type_synonym 'p server = "ledger \<times> 'p processed"

definition merge_pdfs_route ::
  "nat \<Rightarrow> json \<Rightarrow> clock \<Rightarrow> 'p uploads \<Rightarrow> 'p server \<Rightarrow> 'f response \<times> 'p server" where
  "merge_pdfs_route current_user data clk up st =
     (case validate_operation_params data [''files''] of
        Inl e \<Rightarrow> ((500, Error_body ''Internal server error''), st)
      | Inr (Invalid msg) \<Rightarrow> ((400, Error_body msg), st)
      | Inr (Valid checked) \<Rightarrow>
          (case py_subscript data ''files'' of
             Inl e \<Rightarrow> ((500, Error_body ''Internal server error''), st)
           | Inr files \<Rightarrow>
               (let job = new_job (fst st) current_user ''merge'' files (created_utc clk);
                    db = fst st @ [job]
                in case merge_invocation data up (snd st) (engine_now clk) of
                     (Inl e, out') \<Rightarrow>
                       ((500, Error_body ''Internal server error''),
                        (mark_failed (job_id job) e db, out'))
                   | (Inr output_path, out') \<Rightarrow>
                       ((200, Merge_body (job_id job) output_path),
                        (mark_completed (job_id job) (JList [JStr output_path])
                           (completed_utc clk) db, out')))))"

definition split_pdf_route ::
  "('p, 'f) platform \<Rightarrow> nat \<Rightarrow> json \<Rightarrow> clock \<Rightarrow> 'p uploads \<Rightarrow> 'p server \<Rightarrow>
   'f response \<times> 'p server" where
  "split_pdf_route pf current_user data clk up st =
     (case validate_operation_params data [''file''] of
        Inl e \<Rightarrow> ((500, Error_body ''Internal server error''), st)
      | Inr (Invalid msg) \<Rightarrow> ((400, Error_body msg), st)
      | Inr (Valid checked) \<Rightarrow>
          (case py_subscript data ''file'' of
             Inl e \<Rightarrow> ((500, Error_body ''Internal server error''), st)
           | Inr file \<Rightarrow>
               (let job = new_job (fst st) current_user ''split'' (JList [file]) (created_utc clk);
                    db = fst st @ [job]
                in case split_invocation pf data up (snd st) (engine_now clk) of
                     (Inl e, out') \<Rightarrow>
                       ((500, Error_body ''Internal server error''),
                        (mark_failed (job_id job) e db, out'))
                   | (Inr output_paths, out') \<Rightarrow>
                       ((200, Split_body (job_id job) output_paths),
                        (mark_completed (job_id job) (JList (map JStr output_paths))
                           (completed_utc clk) db, out')))))"

definition convert_to_images_route ::
  "('p, 'f) platform \<Rightarrow> nat \<Rightarrow> json \<Rightarrow> clock \<Rightarrow> 'p uploads \<Rightarrow> 'p server \<Rightarrow>
   'f response \<times> 'p server" where
  "convert_to_images_route pf current_user data clk up st =
     (case validate_operation_params data [''file''] of
        Inl e \<Rightarrow> ((500, Error_body ''Internal server error''), st)
      | Inr (Invalid msg) \<Rightarrow> ((400, Error_body msg), st)
      | Inr (Valid checked) \<Rightarrow>
          (case py_subscript data ''file'' of
             Inl e \<Rightarrow> ((500, Error_body ''Internal server error''), st)
           | Inr file \<Rightarrow>
               (let job = new_job (fst st) current_user ''convert_to_images'' (JList [file])
                            (created_utc clk);
                    db = fst st @ [job]
                in case convert_invocation pf data up (snd st) (engine_now clk) of
                     (Inl e, out') \<Rightarrow>
                       ((500, Error_body ''Internal server error''),
                        (mark_failed (job_id job) e db, out'))
                   | (Inr output_paths, out') \<Rightarrow>
                       ((200, Convert_body (job_id job) output_paths),
                        (mark_completed (job_id job) (JList (map JStr output_paths))
                           (completed_utc clk) db, out')))))"

definition compress_pdf_route ::
  "('p, 'f) platform \<Rightarrow> nat \<Rightarrow> json \<Rightarrow> clock \<Rightarrow> 'p uploads \<Rightarrow> 'p server \<Rightarrow>
   'f response \<times> 'p server" where
  "compress_pdf_route pf current_user data clk up st =
     (case validate_operation_params data [''file''] of
        Inl e \<Rightarrow> ((500, Error_body ''Internal server error''), st)
      | Inr (Invalid msg) \<Rightarrow> ((400, Error_body msg), st)
      | Inr (Valid checked) \<Rightarrow>
          (case py_subscript data ''file'' of
             Inl e \<Rightarrow> ((500, Error_body ''Internal server error''), st)
           | Inr file \<Rightarrow>
               (let job = new_job (fst st) current_user ''compress'' (JList [file]) (created_utc clk);
                    db = fst st @ [job]
                in case compress_invocation pf data up (snd st) (engine_now clk) of
                     (Inl e, out') \<Rightarrow>
                       ((500, Error_body ''Internal server error''),
                        (mark_failed (job_id job) e db, out'))
                   | (Inr (output_path, compression_ratio), out') \<Rightarrow>
                       ((200, Compress_body (job_id job) output_path compression_ratio),
                        (mark_completed (job_id job) (JList [JStr output_path])
                           (completed_utc clk) db, out')))))"

text \<open>The URL rules of the blueprint that create a job.\<close>

datatype endpoint = Merge_endpoint | Split_endpoint | Convert_endpoint | Compress_endpoint

definition api_post ::
  "('p, 'f) platform \<Rightarrow> endpoint \<Rightarrow> nat \<Rightarrow> json \<Rightarrow> clock \<Rightarrow> 'p uploads \<Rightarrow> 'p server \<Rightarrow>
   'f response \<times> 'p server" where
  "api_post pf ep current_user data clk up st =
     (case ep of
        Merge_endpoint \<Rightarrow> merge_pdfs_route current_user data clk up st
      | Split_endpoint \<Rightarrow> split_pdf_route pf current_user data clk up st
      | Convert_endpoint \<Rightarrow> convert_to_images_route pf current_user data clk up st
      | Compress_endpoint \<Rightarrow> compress_pdf_route pf current_user data clk up st)"

section \<open>Notions of the specification\<close>

text \<open>The pages of a valid input file, and what makes it valid for the engine.\<close>

definition pages_of :: "'p uploads \<Rightarrow> string \<Rightarrow> 'p list" where
  "pages_of up filename =
     (case up filename of
        Some f \<Rightarrow> (case parsed f of Inr pages \<Rightarrow> pages | Inl msg \<Rightarrow> [])
      | None \<Rightarrow> [])"

definition valid_input :: "'p uploads \<Rightarrow> string \<Rightarrow> bool" where
  "valid_input up filename \<longleftrightarrow>
     (case up filename of
        Some f \<Rightarrow> (case parsed f of Inr pages \<Rightarrow> True | Inl msg \<Rightarrow> False)
      | None \<Rightarrow> False)"

text \<open>The number a decimal numeral stands for: the inverse of \<open>str_nat\<close>.\<close>

definition digit_value :: "char \<Rightarrow> nat" where
  "digit_value c = of_char c - 48"

definition decimal_value :: "string \<Rightarrow> nat" where
  "decimal_value s = foldl (\<lambda>a c. 10 * a + digit_value c) 0 s"

text \<open>
  What the split of the pages \<open>lo\<close> to \<open>hi\<close> (1-based, inclusive) has to look like: the
  names returned in ascending page order, each naming its page; under each name a PDF
  holding that one page; every other name of the processed folder untouched.
\<close>

definition one_file_per_page ::
  "'p list \<Rightarrow> string \<Rightarrow> string \<Rightarrow> int \<Rightarrow> int \<Rightarrow> 'p processed \<Rightarrow> (string list, 'p) outcome \<Rightarrow> bool" where
  "one_file_per_page pages base_name timestamp lo hi out res \<longleftrightarrow>
     fst res = Inr (map (\<lambda>k. split_filename base_name (k - 1) timestamp) [lo .. hi]) \<and>
     (\<forall>k \<in> {lo .. hi}.
        snd res (split_filename base_name (k - 1) timestamp) =
          Some (Pdf_file \<lparr>w_pages = [pages ! nat (k - 1)], w_calls = []\<rparr>)) \<and>
     (\<forall>name. name \<notin> (\<lambda>k. split_filename base_name (k - 1) timestamp) ` {lo .. hi} \<longrightarrow>
        snd res name = out name)"

text \<open>
  One invocation of the engine, the file names it returns on success, and the
  processed folder as it leaves it, on success or failure.
\<close>

datatype engine_call =
    Merge "string list"
  | Split string json
  | Convert string string int
  | Compress string string

definition returned_names ::
  "('p, 'f) platform \<Rightarrow> engine_call \<Rightarrow> 'p uploads \<Rightarrow> 'p processed \<Rightarrow> datetime \<Rightarrow> string list" where
  "returned_names pf c up out now =
     (case c of
        Merge file_list \<Rightarrow>
          (case fst (merge_pdfs file_list up out now) of Inr name \<Rightarrow> [name] | Inl e \<Rightarrow> [])
      | Split filename page_range \<Rightarrow>
          (case fst (split_pdf pf filename up out page_range now) of
             Inr names \<Rightarrow> names | Inl e \<Rightarrow> [])
      | Convert filename format dpi \<Rightarrow>
          (case fst (convert_to_images pf filename up out format dpi now) of
             Inr names \<Rightarrow> names | Inl e \<Rightarrow> [])
      | Compress filename quality \<Rightarrow>
          (case fst (compress_pdf pf filename up out quality now) of
             Inr (name, ratio) \<Rightarrow> [name] | Inl e \<Rightarrow> []))"

definition folder_after ::
  "('p, 'f) platform \<Rightarrow> engine_call \<Rightarrow> 'p uploads \<Rightarrow> 'p processed \<Rightarrow> datetime \<Rightarrow> 'p processed" where
  "folder_after pf c up out now =
     (case c of
        Merge file_list \<Rightarrow> snd (merge_pdfs file_list up out now)
      | Split filename page_range \<Rightarrow> snd (split_pdf pf filename up out page_range now)
      | Convert filename format dpi \<Rightarrow> snd (convert_to_images pf filename up out format dpi now)
      | Compress filename quality \<Rightarrow> snd (compress_pdf pf filename up out quality now))"

text \<open>Two clock readings in the same second.\<close>

definition same_second :: "datetime \<Rightarrow> datetime \<Rightarrow> bool" where
  "same_second t1 t2 \<longleftrightarrow>
     year t1 = year t2 \<and> month t1 = month t2 \<and> day t1 = day t2 \<and>
     hour t1 = hour t2 \<and> minute t1 = minute t2 \<and> second t1 = second t2"

text \<open>
  The names an invocation at the clock reading \<open>now\<close> can write to or return: for a
  merge the word \<^verbatim>\<open>merged\<close> and the timestamp to the second; for a split the input name
  less its extension, the word \<^verbatim>\<open>page\<close> with a page number, and the timestamp; for an
  image conversion the same with the format, which has to be a supported one, in lower
  case as the extension; for a compress none.
\<close>

definition names_of_call :: "engine_call \<Rightarrow> datetime \<Rightarrow> string \<Rightarrow> bool" where
  "names_of_call c now name \<longleftrightarrow>
     (case c of
        Merge file_list \<Rightarrow> name = ''merged_'' @ strftime_stamp now @ ''.pdf''
      | Split filename page_range \<Rightarrow>
          (\<exists>k. name = splitext_root filename @ ''_page_'' @ str_int k @ ''_'' @
                      strftime_stamp now @ ''.pdf'')
      | Convert filename format dpi \<Rightarrow>
          upper format \<in> set supported_formats \<and>
          (\<exists>k. name = splitext_root filename @ ''_page_'' @ str_int k @ ''_'' @
                      strftime_stamp now @ ''.'' @ lower format)
      | Compress filename quality \<Rightarrow> False)"

text \<open>The key a route requires, and the exception its engine invocation raises, if any, with the folder it leaves.\<close>

definition required_params :: "endpoint \<Rightarrow> string list" where
  "required_params ep = (case ep of Merge_endpoint \<Rightarrow> [''files''] | other \<Rightarrow> [''file''])"




text \<open>
  The invariant of a job as the specification states it, for a row a route has finished
  with: the owner is the caller, the input list is not empty, and the row is either
  failed with an error message recorded (the text of the exception, whatever it is) and
  no outputs, or completed with a list of outputs, which is not empty unless the route
  is split.
\<close>

definition finished_job :: "endpoint \<Rightarrow> nat \<Rightarrow> job \<Rightarrow> bool" where
  "finished_job ep current_user j \<longleftrightarrow>
     user_id j = current_user \<and>
     (\<exists>xs. input_files j = Some (JList xs) \<and> xs \<noteq> []) \<and>
     (status j = ''failed'' \<and> error_message j \<noteq> None \<and> output_files j = None \<or>
      status j = ''completed'' \<and> error_message j = None \<and>
        (\<exists>ys. output_files j = Some (JList ys) \<and> (ys = [] \<longrightarrow> ep = Split_endpoint)))"

text \<open>
  The blocks of the validator in the order of the source, each with the word by which
  its messages name the field (the messages about \<^verbatim>\<open>pages\<close> say \<^verbatim>\<open>Pages\<close>, \<^verbatim>\<open>Start page\<close> or
  \<^verbatim>\<open>End page\<close>).
\<close>

definition field_blocks :: "json \<Rightarrow> (string \<times> (exn + string option)) list" where
  "field_blocks data =
     [(''files'', check_files data), (''file'', check_file data), (''page'', check_pages data),
      (''format'', check_format data), (''dpi'', check_dpi data), (''quality'', check_quality data)]"

section \<open>Example inputs\<close>

definition demo_uploads :: "nat uploads" where
  "demo_uploads =
     [''a.pdf'' \<mapsto> \<lparr>file_size = 4096, parsed = Inr [11, 12, 13]\<rparr>,
      ''b.pdf'' \<mapsto> \<lparr>file_size = 2048, parsed = Inr [21, 22]\<rparr>,
      ''five.pdf'' \<mapsto> \<lparr>file_size = 8192, parsed = Inr [51, 52, 53, 54, 55]\<rparr>,
      ''small.pdf'' \<mapsto> \<lparr>file_size = 1024, parsed = Inr [31, 32]\<rparr>,
      ''bad.pdf'' \<mapsto> \<lparr>file_size = 2048, parsed = Inl ''EOF marker not found''\<rparr>]"

definition demo_now :: datetime where
  "demo_now = \<lparr>year = 2024, month = 3, day = 9, hour = 14, minute = 5, second = 59, microsecond = 120\<rparr>"

text \<open>
  An example platform and a later clock reading. On this platform the processed folder
  has no directory in it and a file name has at most 255 bytes.
\<close>

definition demo_platform :: "(nat, rat) platform" where
  "demo_platform =
     \<lparr>written_size = (\<lambda>w. 1000 + 100 * length (w_pages w) - 50 * length (w_calls w)),
      truediv = (\<lambda>a b. of_int a / of_int b),
      float_mul = (\<lambda>x n. x * of_int n),
      image_saved = (\<lambda>name. True),
      open_error =
        (\<lambda>name. if CHR ''/'' \<in> set name
                then Some (''[Errno 2] No such file or directory: '' @
                           [CHR 0x27] @ ''processed/'' @ name @ [CHR 0x27])
                else if 255 < length name
                then Some (''[Errno 36] File name too long: '' @
                           [CHR 0x27] @ ''processed/'' @ name @ [CHR 0x27])
                else None)\<rparr>"

definition demo_later :: datetime where
  "demo_later = \<lparr>year = 2024, month = 3, day = 9, hour = 14, minute = 6, second = 0, microsecond = 7\<rparr>"

text \<open>Example clock readings and an example ledger: one completed job of user 7.\<close>

definition demo_clock :: clock where
  "demo_clock = \<lparr>engine_now = demo_now, created_utc = demo_now, completed_utc = demo_later\<rparr>"

definition demo_ledger :: ledger where
  "demo_ledger =
     [\<lparr>job_id = 1, user_id = 7, operation = ''merge'',
       input_files = Some (JList [JStr ''a.pdf'', JStr ''b.pdf'']),
       output_files = Some (JList [JStr ''merged_20240309_140559.pdf'']),
       status = ''completed'', error_message = None,
       created_at = Some demo_now, completed_at = Some demo_later\<rparr>]"

text \<open>
  An uploads folder with a file in a directory of its own, and one with a file on which
  PyPDF2 fails an \<^verbatim>\<open>assert\<close> statement: the \<^verbatim>\<open>AssertionError\<close> has no text.
\<close>

definition nested_uploads :: "nat uploads" where
  "nested_uploads = [''sub/b.pdf'' \<mapsto> \<lparr>file_size = 2048, parsed = Inr [21, 22]\<rparr>]"


section \<open>Properties of merge\<close>

lemma fold_add_page: "fold add_page ps w = w\<lparr>w_pages := w_pages w @ ps\<rparr>"
  by (induction ps arbitrary: w) (simp_all add: add_page_def)

lemma valid_input_reads:
  assumes "valid_input up f"
  obtains u where "up f = Some u" and "PdfReader u = Inr (pages_of up f)"
  using assms
  by (auto simp: valid_input_def PdfReader_def pages_of_def split: option.splits sum.splits)

lemma merge_loop_valid:
  "list_all (valid_input up) fs \<Longrightarrow>
   merge_loop up fs w = Inr (w\<lparr>w_pages := w_pages w @ concat (map (pages_of up) fs)\<rparr>)"
proof (induction fs arbitrary: w)
  case Nil
  then show ?case by simp
next
  case (Cons f fs)
  from Cons.prems obtain u where u: "up f = Some u" "PdfReader u = Inr (pages_of up f)"
    by (auto elim: valid_input_reads)
  from Cons.prems have "list_all (valid_input up) fs" by simp
  then show ?case
    by (simp add: u Cons.IH fold_add_page)
qed

lemma valid_input_demo:
  "valid_input demo_uploads ''a.pdf''" "valid_input demo_uploads ''b.pdf''"
  by (simp_all add: valid_input_def demo_uploads_def)

lemma pages_of_demo:
  "pages_of demo_uploads ''a.pdf'' = [11, 12, 13]" "pages_of demo_uploads ''b.pdf'' = [21, 22]"
  by (simp_all add: pages_of_def demo_uploads_def)

text \<open>
  C2. For a non-empty list of valid input files, \<open>merge_pdfs\<close> succeeds and writes exactly
  one new artifact: the processed folder changes at the returned name only, and the PDF
  written there holds the pages of the inputs concatenated in the order of the file names,
  so its page count is the sum of the inputs' page counts.
\<close>

theorem merge_pdfs_concatenates:
  assumes "file_list \<noteq> []" and "list_all (valid_input up) file_list"
  shows "merge_pdfs file_list up out now =
           (Inr (merged_filename now),
            out(merged_filename now \<mapsto>
              Pdf_file \<lparr>w_pages = concat (map (pages_of up) file_list), w_calls = []\<rparr>)) \<and>
         length (concat (map (pages_of up) file_list)) =
           sum_list (map (\<lambda>f. length (pages_of up f)) file_list)"
proof -
  have loop: "merge_loop up file_list PdfWriter =
                Inr \<lparr>w_pages = concat (map (pages_of up) file_list), w_calls = []\<rparr>"
    using merge_loop_valid [OF assms(2), of PdfWriter] by (simp add: PdfWriter_def)
  have count: "length (concat (map (pages_of up) file_list)) =
               sum_list (map (\<lambda>f. length (pages_of up f)) file_list)"
    by (simp add: length_concat comp_def)
  show ?thesis
    using count by (simp add: merge_pdfs_def loop Let_def write_pdf_def)
qed

theorem merge_pdfs_concatenates_witness:
  "[''a.pdf'', ''b.pdf''] \<noteq> [] \<and>
   merge_pdfs [''a.pdf'', ''b.pdf''] demo_uploads Map.empty demo_now =
     (Inr (merged_filename demo_now),
      [merged_filename demo_now \<mapsto> Pdf_file \<lparr>w_pages = [11, 12, 13, 21, 22], w_calls = []\<rparr>]) \<and>
   length [11, 12, 13, 21, 22 :: nat] = 3 + 2"
  using merge_pdfs_concatenates [of "[''a.pdf'', ''b.pdf'']" demo_uploads Map.empty demo_now]
  by (simp add: valid_input_demo pages_of_demo)

section \<open>Properties of split\<close>

lemma digit_cases: "d < 10 \<Longrightarrow> d \<in> {0, 1, 2, 3, 4, 5, 6, 7, 8, 9 :: nat}"
  by auto

lemma digit_value_digit_char: "d < 10 \<Longrightarrow> digit_value (digit_char d) = d"
  by (drule digit_cases) (auto simp: digit_value_def digit_char_def)

lemma digit_char_not_minus: "d < 10 \<Longrightarrow> digit_char d \<noteq> CHR ''-''"
  by (drule digit_cases) (auto simp: digit_char_def)

lemma decimal_value_str_nat: "decimal_value (str_nat n) = n"
proof (induction n rule: str_nat.induct)
  case (1 n)
  show ?case
  proof (cases "n < 10")
    case True
    then show ?thesis
      by (subst str_nat.simps) (simp add: decimal_value_def digit_value_digit_char)
  next
    case False
    with 1 have "decimal_value (str_nat (n div 10)) = n div 10" by simp
    with False show ?thesis
      by (subst str_nat.simps) (simp add: decimal_value_def digit_value_digit_char)
  qed
qed

lemma str_nat_inj: "str_nat a = str_nat b \<Longrightarrow> a = b"
  by (metis decimal_value_str_nat)

lemma str_nat_no_minus: "CHR ''-'' \<notin> set (str_nat n)"
proof (induction n rule: str_nat.induct)
  case (1 n)
  show ?case
  proof (cases "n < 10")
    case True
    then show ?thesis
      using digit_char_not_minus [of n] by (subst str_nat.simps) auto
  next
    case False
    with 1 show ?thesis
      using digit_char_not_minus [of "n mod 10"] by (subst str_nat.simps) auto
  qed
qed

lemma str_int_inj:
  assumes "str_int a = str_int b"
  shows "a = b"
proof -
  have neg_pos: "CHR ''-'' # str_nat m \<noteq> str_nat n" for m n
    using str_nat_no_minus [of n] by (metis list.set_intros(1))
  show ?thesis
  proof (cases "a < 0")
    case a: True
    show ?thesis
    proof (cases "b < 0")
      case True
      with a assms have "nat (- a) = nat (- b)"
        by (simp add: str_int_def str_nat_inj)
      with a True show ?thesis by simp
    next
      case False
      with a assms neg_pos show ?thesis by (simp add: str_int_def)
    qed
  next
    case a: False
    show ?thesis
    proof (cases "b < 0")
      case True
      with a assms neg_pos [of "nat (- b)" "nat a"] show ?thesis by (simp add: str_int_def)
    next
      case False
      with a assms have "nat a = nat b"
        by (simp add: str_int_def str_nat_inj)
      with a False show ?thesis by simp
    qed
  qed
qed

lemma split_filename_inj:
  "split_filename base a ts = split_filename base b ts \<Longrightarrow> a = b"
  using str_int_inj [of "a + 1" "b + 1"] by (simp add: split_filename_def)

lemma split_loop_in_range:
  assumes "\<forall>n \<in> set nums. 0 \<le> n \<and> n < int (length pages)"
    and "\<forall>n \<in> set nums. open_error pf (split_filename base n ts) = None"
  shows "split_loop pf pages base ts nums acc out =
           (Inr (acc @ map (\<lambda>n. split_filename base n ts) nums),
            fold (\<lambda>n. write_pdf (split_filename base n ts) \<lparr>w_pages = [pages ! nat n], w_calls = []\<rparr>)
              nums out)"
  using assms
proof (induction nums arbitrary: acc out)
  case Nil
  then show ?case by simp
next
  case (Cons n nums)
  then have n: "0 \<le> n" "n < int (length pages)" by simp_all
  then have get: "py_getitem pages n = Inr (pages ! nat n)"
    by (simp add: py_getitem_def)
  from Cons.prems have create: "open_error pf (split_filename base n ts) = None" by simp
  from Cons.prems have "\<forall>n \<in> set nums. 0 \<le> n \<and> n < int (length pages)"
    and "\<forall>n \<in> set nums. open_error pf (split_filename base n ts) = None" by simp_all
  from Cons.IH [OF this] show ?case
    by (simp add: get create Let_def add_page_def PdfWriter_def create_pdf_def)
qed

lemma fold_write_other:
  "name \<notin> key ` set ks \<Longrightarrow> fold (\<lambda>k. write_pdf (key k) (v k)) ks out name = out name"
  by (induction ks arbitrary: out) (auto simp: write_pdf_def)

lemma fold_write_member:
  "inj_on key (set ks) \<Longrightarrow> distinct ks \<Longrightarrow> k \<in> set ks \<Longrightarrow>
   fold (\<lambda>k. write_pdf (key k) (v k)) ks out (key k) = Some (Pdf_file (v k))"
proof (induction ks arbitrary: out)
  case Nil
  then show ?case by simp
next
  case (Cons a ks)
  show ?case
  proof (cases "k = a")
    case True
    with Cons.prems have "key k \<notin> key ` set ks"
      by (auto simp: inj_on_def)
    then have "fold (\<lambda>k. write_pdf (key k) (v k)) ks (write_pdf (key a) (v a) out) (key k) =
               write_pdf (key a) (v a) out (key k)"
      by (rule fold_write_other)
    moreover have "write_pdf (key a) (v a) out (key a) = Some (Pdf_file (v a))"
      by (simp add: write_pdf_def)
    ultimately show ?thesis using True by simp
  next
    case False
    with Cons.prems have "inj_on key (set ks)" "distinct ks" "k \<in> set ks"
      by (simp_all add: inj_on_def)
    from Cons.IH [OF this] show ?thesis by simp
  qed
qed

lemma upto_shift: "[a - 1 .. b - 1] = map (\<lambda>k. k - 1) [a .. b]"
proof (induction a b rule: upto.induct)
  case (1 i j)
  show ?case
  proof (cases "i \<le> j")
    case True
    with 1 have "[i + 1 - 1 .. j - 1] = map (\<lambda>k. k - 1) [i + 1 .. j]" by simp
    with True show ?thesis
      by (subst upto.simps, subst (2) upto.simps) simp
  next
    case False
    then show ?thesis by simp
  qed
qed

lemma split_pdf_range:
  assumes src: "up filename = Some f" "parsed f = Inr pages"
    and nums: "pages_to_split page_range (int (length pages)) = Inr (py_range (lo - 1) hi)"
    and bounds: "1 \<le> lo" "hi \<le> int (length pages)"
    and create: "\<forall>k \<in> {lo .. hi}.
                   open_error pf (split_filename (splitext_root filename) (k - 1) (strftime_stamp now)) = None"
  shows "one_file_per_page pages (splitext_root filename) (strftime_stamp now) lo hi out
           (split_pdf pf filename up out page_range now)"
proof -
  let ?key = "\<lambda>n. split_filename (splitext_root filename) n (strftime_stamp now)"
  let ?doc = "\<lambda>n. \<lparr>w_pages = [pages ! nat n], w_calls = []\<rparr>"
  let ?nums = "[lo - 1 .. hi - 1]"
  have in_range: "\<forall>n \<in> set ?nums. 0 \<le> n \<and> n < int (length pages)"
    using bounds by auto
  have creatable: "\<forall>n \<in> set ?nums. open_error pf (?key n) = None"
  proof
    fix n assume "n \<in> set ?nums"
    then have "n + 1 \<in> {lo .. hi}" by simp
    with create have "open_error pf (?key (n + 1 - 1)) = None" by blast
    then show "open_error pf (?key n) = None" by simp
  qed
  have run: "split_pdf pf filename up out page_range now =
               (Inr (map ?key ?nums), fold (\<lambda>n. write_pdf (?key n) (?doc n)) ?nums out)"
    using split_loop_in_range [OF in_range creatable, of "[]" out]
    by (simp add: split_pdf_def src PdfReader_def nums py_range_def)
  have names: "map ?key ?nums = map (\<lambda>k. ?key (k - 1)) [lo .. hi]"
    by (simp add: upto_shift comp_def)
  have inj: "inj_on ?key (set ?nums)"
    by (rule inj_onI) (rule split_filename_inj)
  have written: "fold (\<lambda>n. write_pdf (?key n) (?doc n)) ?nums out (?key (k - 1)) =
                   Some (Pdf_file (?doc (k - 1)))" if "k \<in> {lo .. hi}" for k
  proof -
    from that have "k - 1 \<in> set ?nums" by simp
    with inj show ?thesis
      by (intro fold_write_member [where key = ?key and v = ?doc]) simp_all
  qed
  have others: "fold (\<lambda>n. write_pdf (?key n) (?doc n)) ?nums out name = out name"
    if "name \<notin> (\<lambda>k. ?key (k - 1)) ` {lo .. hi}" for name
  proof -
    have "set ?nums = (\<lambda>k. k - 1) ` {lo .. hi}"
      by (simp only: upto_shift set_map set_upto)
    then have "?key ` set ?nums = (\<lambda>k. ?key (k - 1)) ` {lo .. hi}"
      by (simp only: image_image)
    with that have "name \<notin> ?key ` set ?nums" by simp
    then show ?thesis by (rule fold_write_other)
  qed
  show ?thesis
    unfolding one_file_per_page_def run using names written others by simp
qed

lemma strftime_stamp_demo: "strftime_stamp demo_now = ''20240309_140559''"
  by code_simp

lemma str_int_small:
  "str_int 1 = ''1''" "str_int 2 = ''2''" "str_int 3 = ''3''" "str_int 4 = ''4''" "str_int 5 = ''5''"
  by (simp_all add: str_int_def str_nat.simps digit_char_def)

lemma splitext_root_demo: "splitext_root ''five.pdf'' = ''five''"
  by (simp add: splitext_root_def)

lemma five_pages_creatable:
  "\<forall>k \<in> {1 .. 5}. open_error demo_platform (split_filename ''five'' (k - 1) ''20240309_140559'') = None"
proof
  fix k :: int assume "k \<in> {1 .. 5}"
  then have "k = 1 \<or> k = 2 \<or> k = 3 \<or> k = 4 \<or> k = 5" by auto
  then show "open_error demo_platform (split_filename ''five'' (k - 1) ''20240309_140559'') = None"
    by (elim disjE) (simp_all add: split_filename_def str_int_small demo_platform_def)
qed

text \<open>
  C1, as the code has it. For a valid input file whose per-page output files can be
  created in the processed folder, and a pages range holding the integers \<open>s\<close> and \<open>e\<close>
  under \<^verbatim>\<open>start\<close> and \<^verbatim>\<open>end\<close>, with \<open>1 \<le> s \<le> e\<close> and \<open>s\<close> not beyond the last page,
  \<open>split_pdf\<close> writes one single-page file for each of the pages \<open>s\<close> to \<open>min e n\<close> of the
  \<open>n\<close>-page source, returned in ascending order and named with the 1-based page number:
  \<open>min e n - s + 1\<close> files, which is \<open>e - s + 1\<close> when \<open>e \<le> n\<close>. With no pages range it
  writes one file for each of the pages \<open>1\<close> to \<open>n\<close>.
\<close>

theorem split_pdf_selected_pages:
  assumes "up filename = Some f" and "parsed f = Inr pages"
    and "\<forall>k \<in> {1 .. int (length pages)}.
           open_error pf (split_filename (splitext_root filename) (k - 1) (strftime_stamp now)) = None"
  shows "(map_of d ''start'' = Some (JInt s) \<and> map_of d ''end'' = Some (JInt e) \<and>
          1 \<le> s \<and> s \<le> e \<and> s \<le> int (length pages) \<longrightarrow>
            one_file_per_page pages (splitext_root filename) (strftime_stamp now)
              s (min e (int (length pages))) out (split_pdf pf filename up out (JObj d) now) \<and>
            int (length [s .. min e (int (length pages))]) = min e (int (length pages)) - s + 1) \<and>
         one_file_per_page pages (splitext_root filename) (strftime_stamp now)
           1 (int (length pages)) out (split_pdf pf filename up out JNull now) \<and>
         length [1 .. int (length pages)] = length pages"
proof (intro conjI impI)
  assume range: "map_of d ''start'' = Some (JInt s) \<and> map_of d ''end'' = Some (JInt e) \<and>
                 1 \<le> s \<and> s \<le> e \<and> s \<le> int (length pages)"
  then have "d \<noteq> []" by auto
  with range have nums: "pages_to_split (JObj d) (int (length pages)) =
                     Inr (py_range (s - 1) (min e (int (length pages))))"
    by (simp add: pages_to_split_def dict_get_def)
  from range assms(3)
  have "\<forall>k \<in> {s .. min e (int (length pages))}.
          open_error pf (split_filename (splitext_root filename) (k - 1) (strftime_stamp now)) = None"
    by auto
  with assms(1,2) nums range
  show "one_file_per_page pages (splitext_root filename) (strftime_stamp now)
          s (min e (int (length pages))) out (split_pdf pf filename up out (JObj d) now)"
    by (intro split_pdf_range) simp_all
  from range show "int (length [s .. min e (int (length pages))]) = min e (int (length pages)) - s + 1"
    by simp
next
  have "pages_to_split JNull (int (length pages)) = Inr (py_range (1 - 1) (int (length pages)))"
    by (simp add: pages_to_split_def)
  with assms
  show "one_file_per_page pages (splitext_root filename) (strftime_stamp now)
          1 (int (length pages)) out (split_pdf pf filename up out JNull now)"
    by (intro split_pdf_range) simp_all
  show "length [1 .. int (length pages)] = length pages"
    by simp
qed

text \<open>Pages 2 to 3 of a five-page document: two files, page 2 and page 3, in that order.\<close>

theorem split_pdf_selected_pages_witness:
  "demo_uploads ''five.pdf'' = Some \<lparr>file_size = 8192, parsed = Inr [51, 52, 53, 54, 55]\<rparr> \<and>
   open_error demo_platform ''five_page_1_20240309_140559.pdf'' = None \<and>
   open_error demo_platform ''five_page_2_20240309_140559.pdf'' = None \<and>
   open_error demo_platform ''five_page_3_20240309_140559.pdf'' = None \<and>
   open_error demo_platform ''five_page_4_20240309_140559.pdf'' = None \<and>
   open_error demo_platform ''five_page_5_20240309_140559.pdf'' = None \<and>
   fst (split_pdf demo_platform ''five.pdf'' demo_uploads Map.empty
          (JObj [(''start'', JInt 2), (''end'', JInt 3)]) demo_now) =
     Inr [''five_page_2_20240309_140559.pdf'', ''five_page_3_20240309_140559.pdf''] \<and>
   snd (split_pdf demo_platform ''five.pdf'' demo_uploads Map.empty
          (JObj [(''start'', JInt 2), (''end'', JInt 3)]) demo_now)
       ''five_page_3_20240309_140559.pdf'' = Some (Pdf_file \<lparr>w_pages = [53], w_calls = []\<rparr>) \<and>
   length (pages_of demo_uploads ''five.pdf'') = 5"
proof -
  let ?res = "split_pdf demo_platform ''five.pdf'' demo_uploads Map.empty
                (JObj [(''start'', JInt 2), (''end'', JInt 3)]) demo_now"
  have src: "demo_uploads ''five.pdf'' = Some \<lparr>file_size = 8192, parsed = Inr [51, 52, 53, 54, 55]\<rparr>"
    by (simp add: demo_uploads_def)
  have "one_file_per_page [51, 52, 53, 54, 55 :: nat] ''five'' ''20240309_140559'' 2 3 Map.empty ?res"
    using src five_pages_creatable
      split_pdf_selected_pages [where up = demo_uploads and filename = "''five.pdf''"
        and f = "\<lparr>file_size = 8192, parsed = Inr [51, 52, 53, 54, 55]\<rparr>"
        and pages = "[51, 52, 53, 54, 55]" and d = "[(''start'', JInt 2), (''end'', JInt 3)]"
        and s = 2 and e = 3 and now = demo_now and out = Map.empty and pf = demo_platform]
    by (simp add: strftime_stamp_demo splitext_root_demo)
  then have names: "fst ?res = Inr (map (\<lambda>k. split_filename ''five'' (k - 1) ''20240309_140559'') [2 .. 3])"
    and written: "\<forall>k \<in> {2 .. 3}. snd ?res (split_filename ''five'' (k - 1) ''20240309_140559'') =
                    Some (Pdf_file \<lparr>w_pages = [[51, 52, 53, 54, 55] ! nat (k - 1)], w_calls = []\<rparr>)"
    by (simp_all add: one_file_per_page_def)
  from names have "fst ?res = Inr [''five_page_2_20240309_140559.pdf'', ''five_page_3_20240309_140559.pdf'']"
    by (simp add: split_filename_def str_int_small)
  moreover from written have "snd ?res (split_filename ''five'' (3 - 1) ''20240309_140559'') =
      Some (Pdf_file \<lparr>w_pages = [[51, 52, 53, 54, 55] ! nat (3 - 1)], w_calls = []\<rparr>)"
    by (rule bspec) simp
  then have "snd ?res ''five_page_3_20240309_140559.pdf'' = Some (Pdf_file \<lparr>w_pages = [53], w_calls = []\<rparr>)"
    by (simp add: split_filename_def str_int_small eval_nat_numeral)
  moreover have "open_error demo_platform ''five_page_1_20240309_140559.pdf'' = None"
    "open_error demo_platform ''five_page_2_20240309_140559.pdf'' = None"
    "open_error demo_platform ''five_page_3_20240309_140559.pdf'' = None"
    "open_error demo_platform ''five_page_4_20240309_140559.pdf'' = None"
    "open_error demo_platform ''five_page_5_20240309_140559.pdf'' = None"
    by (simp_all add: demo_platform_def)
  ultimately show ?thesis
    using src by (simp add: pages_of_def)
qed

text \<open>
  C1 as stated fails where \<^verbatim>\<open>start\<close> lies beyond the last page: on a three-page document
  the range 5 to 6 gives no file at all, neither \<open>6 - 5 + 1\<close> files nor the count with
  \<^verbatim>\<open>end\<close> clamped. It also fails where an output file cannot be created: the readable
  two-page \<^verbatim>\<open>sub/b.pdf\<close>, split with no pages range, gives the output name
  \<^verbatim>\<open>sub/b_page_1_20240309_140559.pdf\<close>, in a directory that the processed folder does not
  have; the call raises and writes nothing, where the claim has one output per page.
\<close>

theorem split_pdf_count_counterexample:
  "valid_input demo_uploads ''a.pdf'' \<and> length (pages_of demo_uploads ''a.pdf'') = 3 \<and>
   (1::int) \<le> 5 \<and> (5::int) \<le> 6 \<and>
   fst (split_pdf demo_platform ''a.pdf'' demo_uploads Map.empty
          (JObj [(''start'', JInt 5), (''end'', JInt 6)]) demo_now) = Inr [] \<and>
   int (length ([] :: string list)) \<noteq> 6 - 5 + 1 \<and>
   int (length ([] :: string list)) \<noteq> min 6 3 - 5 + 1 \<and>
   valid_input nested_uploads ''sub/b.pdf'' \<and> length (pages_of nested_uploads ''sub/b.pdf'') = 2 \<and>
   split_filename (splitext_root ''sub/b.pdf'') 0 (strftime_stamp demo_now) =
     ''sub/b_page_1_20240309_140559.pdf'' \<and>
   split_pdf demo_platform ''sub/b.pdf'' nested_uploads Map.empty JNull demo_now =
     (Inl (Exn OSError
        (''[Errno 2] No such file or directory: '' @
         [CHR 0x27] @ ''processed/sub/b_page_1_20240309_140559.pdf'' @ [CHR 0x27])), Map.empty)"
proof -
  have beyond:
    "valid_input demo_uploads ''a.pdf'' \<and> length (pages_of demo_uploads ''a.pdf'') = 3 \<and>
     fst (split_pdf demo_platform ''a.pdf'' demo_uploads Map.empty
            (JObj [(''start'', JInt 5), (''end'', JInt 6)]) demo_now) = Inr []"
    by (simp add: valid_input_def pages_of_def demo_uploads_def split_pdf_def PdfReader_def
        pages_to_split_def dict_get_def py_range_def)
  have root: "splitext_root ''sub/b.pdf'' = ''sub/b''"
    by (simp add: splitext_root_def)
  have name: "split_filename ''sub/b'' 0 ''20240309_140559'' = ''sub/b_page_1_20240309_140559.pdf''"
    by (simp add: split_filename_def str_int_small)
  have "open_error demo_platform ''sub/b_page_1_20240309_140559.pdf'' =
          Some (''[Errno 2] No such file or directory: '' @
                [CHR 0x27] @ ''processed/sub/b_page_1_20240309_140559.pdf'' @ [CHR 0x27])"
    by (simp add: demo_platform_def)
  then have unwritable:
    "valid_input nested_uploads ''sub/b.pdf'' \<and> length (pages_of nested_uploads ''sub/b.pdf'') = 2 \<and>
     split_pdf demo_platform ''sub/b.pdf'' nested_uploads Map.empty JNull demo_now =
       (Inl (Exn OSError
          (''[Errno 2] No such file or directory: '' @
           [CHR 0x27] @ ''processed/sub/b_page_1_20240309_140559.pdf'' @ [CHR 0x27])), Map.empty)"
    by (simp add: valid_input_def pages_of_def nested_uploads_def split_pdf_def PdfReader_def
        pages_to_split_def py_range_def py_getitem_def Let_def create_pdf_def root name
        strftime_stamp_demo upto.simps)
  from beyond unwritable root name show ?thesis
    by (simp add: strftime_stamp_demo)
qed

section \<open>Properties of the output file names\<close>

lemma length_zero_padded: "length (zero_padded w n) = w"
  by (induction w arbitrary: n) simp_all

lemma digit_char_inj: "a < 10 \<Longrightarrow> b < 10 \<Longrightarrow> digit_char a = digit_char b \<Longrightarrow> a = b"
  by (metis digit_value_digit_char)

lemma zero_padded_inj:
  "n < 10 ^ w \<Longrightarrow> m < 10 ^ w \<Longrightarrow> zero_padded w n = zero_padded w m \<Longrightarrow> n = m"
proof (induction w arbitrary: n m)
  case 0
  then show ?case by simp
next
  case (Suc w)
  from Suc.prems have small: "n div 10 < 10 ^ w" "m div 10 < 10 ^ w"
    by (simp_all add: less_mult_imp_div_less mult.commute)
  from Suc.prems(3) have pre: "zero_padded w (n div 10) = zero_padded w (m div 10)"
    and d: "digit_char (n mod 10) = digit_char (m mod 10)"
    by (simp_all add: length_zero_padded)
  from small pre have "n div 10 = m div 10" by (rule Suc.IH)
  moreover from d have "n mod 10 = m mod 10"
    by (intro digit_char_inj) simp_all
  ultimately show ?case
    by (metis div_mult_mod_eq)
qed

lemma strftime_stamp_inj:
  assumes "valid_datetime t1" "valid_datetime t2" "strftime_stamp t1 = strftime_stamp t2"
  shows "same_second t1 t2"
proof -
  from assms(3) have eqs:
    "zero_padded 4 (year t1) = zero_padded 4 (year t2)"
    "zero_padded 2 (month t1) = zero_padded 2 (month t2)"
    "zero_padded 2 (day t1) = zero_padded 2 (day t2)"
    "zero_padded 2 (hour t1) = zero_padded 2 (hour t2)"
    "zero_padded 2 (minute t1) = zero_padded 2 (minute t2)"
    "zero_padded 2 (second t1) = zero_padded 2 (second t2)"
    unfolding strftime_stamp_def by (simp_all add: length_zero_padded)
  from assms(1,2) have
    "year t1 < 10 ^ 4" "year t2 < 10 ^ 4" "month t1 < 10 ^ 2" "month t2 < 10 ^ 2"
    "day t1 < 10 ^ 2" "day t2 < 10 ^ 2" "hour t1 < 10 ^ 2" "hour t2 < 10 ^ 2"
    "minute t1 < 10 ^ 2" "minute t2 < 10 ^ 2" "second t1 < 10 ^ 2" "second t2 < 10 ^ 2"
    by (simp_all add: valid_datetime_def)
  with eqs show ?thesis
    unfolding same_second_def by (intro conjI zero_padded_inj) assumption+
qed

lemma length_strftime_stamp: "length (strftime_stamp t) = 15"
  by (simp add: strftime_stamp_def length_zero_padded)

lemma stamp_of_name:
  assumes eq: "pre1 @ s1 @ ''.'' @ e1 = pre2 @ s2 @ ''.'' @ e2"
    and len: "length s1 = length s2"
    and e1: "CHR ''.'' \<notin> set e1" and e2: "CHR ''.'' \<notin> set e2"
  shows "s1 = s2"
proof -
  have "rev (pre1 @ s1 @ ''.'' @ e1) = rev e1 @ CHR ''.'' # rev (pre1 @ s1)" by simp
  with e1 have t1: "takeWhile (\<lambda>c. c \<noteq> CHR ''.'') (rev (pre1 @ s1 @ ''.'' @ e1)) = rev e1"
    by (auto simp: takeWhile_tail)
  have "rev (pre2 @ s2 @ ''.'' @ e2) = rev e2 @ CHR ''.'' # rev (pre2 @ s2)" by simp
  with e2 have t2: "takeWhile (\<lambda>c. c \<noteq> CHR ''.'') (rev (pre2 @ s2 @ ''.'' @ e2)) = rev e2"
    by (auto simp: takeWhile_tail)
  from t1 t2 eq have "e1 = e2" by (metis rev_is_rev_conv)
  with eq have "pre1 @ s1 = pre2 @ s2" by simp
  with len show ?thesis by simp
qed

lemma names_stamp_differs:
  assumes "valid_datetime t1" "valid_datetime t2" "\<not> same_second t1 t2"
    and "CHR ''.'' \<notin> set e1" "CHR ''.'' \<notin> set e2"
  shows "pre1 @ strftime_stamp t1 @ ''.'' @ e1 \<noteq> pre2 @ strftime_stamp t2 @ ''.'' @ e2"
proof
  assume "pre1 @ strftime_stamp t1 @ ''.'' @ e1 = pre2 @ strftime_stamp t2 @ ''.'' @ e2"
  then have "strftime_stamp t1 = strftime_stamp t2"
    by (rule stamp_of_name) (simp_all add: length_strftime_stamp assms(4,5))
  with assms(1,2) have "same_second t1 t2" by (rule strftime_stamp_inj)
  with assms(3) show False by contradiction
qed

text \<open>What the case mappings do to a character that is no letter and in no table.\<close>

lemma find_Some_member: "find P xs = Some x \<Longrightarrow> x \<in> set xs \<and> P x"
  by (induction xs) (auto split: if_splits)

lemma case_map_keeps:
  assumes "\<forall>(w, r) \<in> set table. w \<noteq> [] \<and> x \<notin> set w" and "f x = x" and "x \<in> set s"
  shows "x \<in> set (case_map table f s)"
  using assms
proof (induction table f s rule: case_map.induct)
  case (1 table f)
  then show ?case by simp
next
  case (2 table f c cs)
  show ?case
  proof (cases "find (\<lambda>(w, r). take (length w) (c # cs) = w) table")
    case None
    show ?thesis
    proof (cases "x = c")
      case True
      with None "2.prems"(2) show ?thesis by simp
    next
      case False
      with "2.prems"(3) have "x \<in> set cs" by simp
      with "2.IH"(1) [OF None "2.prems"(1,2)] None show ?thesis by simp
    qed
  next
    case (Some wr)
    obtain w r where wr: "wr = (w, r)" by (cases wr)
    from find_Some_member [OF Some] wr
    have mem: "(w, r) \<in> set table" and pre: "take (length w) (c # cs) = w" by auto
    from mem "2.prems"(1) have w: "w \<noteq> []" "x \<notin> set w" by auto
    have "c # cs = w @ drop (length w) (c # cs)"
      using pre by (metis append_take_drop_id)
    moreover from w(1) have "drop (length w) (c # cs) = drop (length w - 1) cs"
      by (cases w) simp_all
    ultimately have "set (c # cs) = set w \<union> set (drop (length w - 1) cs)"
      by (metis set_append)
    with "2.prems"(3) w(2) have "x \<in> set (drop (length w - 1) cs)" by auto
    with "2.IH"(2) [OF Some wr [symmetric] "2.prems"(1,2)]
    have "x \<in> set (case_map table f (drop (length w - 1) cs))" by simp
    with Some wr show ?thesis by simp
  qed
qed

lemma case_map_adds:
  assumes "\<forall>(w, r) \<in> set table. x \<notin> set r" and "\<forall>c. f c = x \<longrightarrow> c = x"
    and "x \<in> set (case_map table f s)"
  shows "x \<in> set s"
  using assms
proof (induction table f s rule: case_map.induct)
  case (1 table f)
  then show ?case by simp
next
  case (2 table f c cs)
  show ?case
  proof (cases "find (\<lambda>(w, r). take (length w) (c # cs) = w) table")
    case None
    with "2.prems"(3) have "f c = x \<or> x \<in> set (case_map table f cs)" by auto
    then show ?thesis
    proof
      assume "f c = x"
      with "2.prems"(2) show ?thesis by auto
    next
      assume "x \<in> set (case_map table f cs)"
      with "2.IH"(1) [OF None "2.prems"(1,2)] show ?thesis by simp
    qed
  next
    case (Some wr)
    obtain w r where wr: "wr = (w, r)" by (cases wr)
    from find_Some_member [OF Some] wr have "(w, r) \<in> set table" by auto
    with "2.prems"(1) have "x \<notin> set r" by auto
    with "2.prems"(3) Some wr have "x \<in> set (case_map table f (drop (length w - 1) cs))"
      by simp
    with "2.IH"(2) [OF Some wr [symmetric] "2.prems"(1,2)]
    have "x \<in> set (drop (length w - 1) cs)" by simp
    then have "x \<in> set cs" by (rule in_set_dropD)
    then show ?thesis by simp
  qed
qed

lemma upper_char_dot: "upper_char CHR ''.'' = CHR ''.''"
  by (simp add: upper_char_def ascii_lowercase_def ascii_uppercase_def)

lemma lower_char_dot:
  assumes "lower_char c = CHR ''.''"
  shows "c = CHR ''.''"
proof (cases "map_of (zip ascii_uppercase ascii_lowercase) c")
  case None
  with assms show ?thesis by (simp add: lower_char_def)
next
  case (Some l)
  then have "l \<in> set ascii_lowercase"
    by (auto dest!: map_of_SomeD set_zip_rightD)
  then have "l \<noteq> CHR ''.''"
    by (auto simp: ascii_lowercase_def)
  with assms Some show ?thesis by (simp add: lower_char_def)
qed

lemma upper_keeps_dot: "CHR ''.'' \<in> set s \<Longrightarrow> CHR ''.'' \<in> set (upper s)"
  unfolding upper_def
  by (rule case_map_keeps) (simp_all add: special_upper_def upper_char_dot)

lemma lower_adds_no_dot: "CHR ''.'' \<in> set (lower s) \<Longrightarrow> CHR ''.'' \<in> set s"
  unfolding lower_def
  by (rule case_map_adds [where f = lower_char and table = special_lower])
    (auto simp: special_lower_def dest: lower_char_dot)

text \<open>The extension of an image name has no dot of its own.\<close>

lemma supported_extension:
  assumes "upper format \<in> set supported_formats"
  shows "CHR ''.'' \<notin> set (lower format)"
proof
  assume "CHR ''.'' \<in> set (lower format)"
  then have "CHR ''.'' \<in> set format" by (rule lower_adds_no_dot)
  then have "CHR ''.'' \<in> set (upper format)" by (rule upper_keeps_dot)
  moreover from assms have "upper format = ''PNG'' \<or> upper format = ''JPEG'' \<or> upper format = ''TIFF''"
    by (simp add: supported_formats_def)
  ultimately show False by auto
qed

lemma names_of_call_shape:
  assumes "names_of_call c now name"
  obtains pre ext where "CHR ''.'' \<notin> set ext" and "name = pre @ strftime_stamp now @ ''.'' @ ext"
proof (cases c)
  case (Merge file_list)
  with assms have "name = ''merged_'' @ strftime_stamp now @ ''.'' @ ''pdf''"
    by (simp add: names_of_call_def)
  then show ?thesis by (rule that [rotated]) simp
next
  case (Split filename page_range)
  with assms obtain k where
    "name = (splitext_root filename @ ''_page_'' @ str_int k @ ''_'') @ strftime_stamp now @ ''.'' @ ''pdf''"
    by (auto simp: names_of_call_def)
  then show ?thesis by (rule that [rotated]) simp
next
  case (Convert filename format dpi)
  with assms obtain k where fmt: "upper format \<in> set supported_formats" and
    "name = (splitext_root filename @ ''_page_'' @ str_int k @ ''_'') @ strftime_stamp now @ ''.'' @
            lower format"
    by (auto simp: names_of_call_def)
  with supported_extension [OF fmt] show ?thesis by (intro that [of "lower format"])
next
  case (Compress filename quality)
  with assms show ?thesis by (simp add: names_of_call_def)
qed

lemma names_of_calls_differ:
  assumes "valid_datetime t1" "valid_datetime t2" "\<not> same_second t1 t2"
    and "names_of_call c1 t1 n1" "names_of_call c2 t2 n2"
  shows "n1 \<noteq> n2"
proof -
  from assms(4) obtain pre1 e1 where 1: "CHR ''.'' \<notin> set e1"
    "n1 = pre1 @ strftime_stamp t1 @ ''.'' @ e1" by (rule names_of_call_shape)
  from assms(5) obtain pre2 e2 where 2: "CHR ''.'' \<notin> set e2"
    "n2 = pre2 @ strftime_stamp t2 @ ''.'' @ e2" by (rule names_of_call_shape)
  from names_stamp_differs [OF assms(1-3) 1(1) 2(1), of pre1 pre2] 1(2) 2(2)
  show ?thesis by simp
qed

lemma str_int_of_nat: "str_int (int n) = str_nat n"
  by (simp add: str_int_def)

text \<open>The names each operation returns, and the names under which it changes the folder.\<close>

lemma merge_pdfs_returns: "fst (merge_pdfs fs up out now) = Inr n \<Longrightarrow> n = merged_filename now"
  by (auto simp: merge_pdfs_def Let_def split: sum.splits)

lemma merge_pdfs_touches: "snd (merge_pdfs fs up out now) n \<noteq> out n \<Longrightarrow> n = merged_filename now"
  by (auto simp: merge_pdfs_def Let_def write_pdf_def split: sum.splits if_splits)

lemma split_loop_names:
  "split_loop pf pages base ts nums acc out = (Inr names, out') \<Longrightarrow> n \<in> set names \<Longrightarrow>
   n \<in> set acc \<or> (\<exists>k. n = base @ ''_page_'' @ str_int k @ ''_'' @ ts @ ''.pdf'')"
proof (induction nums arbitrary: acc out)
  case Nil
  then show ?case by simp
next
  case (Cons a nums)
  from Cons.prems(1) obtain page where page: "py_getitem pages a = Inr page"
    by (cases "py_getitem pages a") simp_all
  from Cons.prems(1) page obtain out1 where
    created: "create_pdf pf (split_filename base a ts) (add_page page PdfWriter) out = Inr out1"
    by (cases "create_pdf pf (split_filename base a ts) (add_page page PdfWriter) out")
      (simp_all add: Let_def)
  with Cons.prems(1) page
  have "split_loop pf pages base ts nums (acc @ [split_filename base a ts]) out1 = (Inr names, out')"
    by (simp add: Let_def)
  from Cons.IH [OF this Cons.prems(2)] show ?case
    by (auto simp: split_filename_def)
qed

lemma split_loop_touches:
  "split_loop pf pages base ts nums acc out = (r, out') \<Longrightarrow> out' n \<noteq> out n \<Longrightarrow>
   \<exists>k. n = base @ ''_page_'' @ str_int k @ ''_'' @ ts @ ''.pdf''"
proof (induction nums arbitrary: acc out)
  case Nil
  then show ?case by simp
next
  case (Cons a nums)
  show ?case
  proof (cases "py_getitem pages a")
    case (Inl e)
    with Cons.prems show ?thesis by simp
  next
    case (Inr page)
    show ?thesis
    proof (cases "create_pdf pf (split_filename base a ts) (add_page page PdfWriter) out")
      case (Inl e)
      with Inr Cons.prems show ?thesis by (simp add: Let_def)
    next
      case created: (Inr out1)
      then have out1: "out1 = write_pdf (split_filename base a ts) (add_page page PdfWriter) out"
        by (simp add: create_pdf_def split: option.splits)
      from Cons.prems(1) Inr created
      have run: "split_loop pf pages base ts nums (acc @ [split_filename base a ts]) out1 = (r, out')"
        by (simp add: Let_def)
      show ?thesis
      proof (cases "out' n = out1 n")
        case False
        with run show ?thesis by (rule Cons.IH)
      next
        case True
        with Cons.prems(2) have "out1 n \<noteq> out n" by simp
        with out1 have "n = split_filename base a ts"
          by (simp add: write_pdf_def split: if_splits)
        then show ?thesis by (auto simp: split_filename_def)
      qed
    qed
  qed
qed

lemma image_filename_shape:
  "image_filename base a ts format =
     base @ ''_page_'' @ str_int (int (a + 1)) @ ''_'' @ ts @ ''.'' @ lower format"
  by (simp only: image_filename_def str_int_of_nat)

lemma convert_loop_names:
  "convert_loop pf base ts format dpi nums acc out = (names, out') \<Longrightarrow> n \<in> set names \<Longrightarrow>
   n \<in> set acc \<or> (\<exists>k. n = base @ ''_page_'' @ str_int k @ ''_'' @ ts @ ''.'' @ lower format)"
proof (induction nums arbitrary: acc out)
  case Nil
  then show ?case by simp
next
  case (Cons a nums)
  show ?case
  proof (cases "image_saved pf (image_filename base a ts format)")
    case True
    with Cons.prems(1)
    have "convert_loop pf base ts format dpi nums (acc @ [image_filename base a ts format])
            (out(image_filename base a ts format \<mapsto> Image_file (upper format) dpi)) = (names, out')"
      by (simp add: Let_def)
    from Cons.IH [OF this Cons.prems(2)] show ?thesis
      using image_filename_shape [of base a ts format] by auto
  next
    case False
    with Cons.prems(1) have "convert_loop pf base ts format dpi nums acc out = (names, out')"
      by (simp add: Let_def)
    from Cons.IH [OF this Cons.prems(2)] show ?thesis .
  qed
qed

lemma convert_loop_touches:
  "convert_loop pf base ts format dpi nums acc out = (names, out') \<Longrightarrow> out' n \<noteq> out n \<Longrightarrow>
   \<exists>k. n = base @ ''_page_'' @ str_int k @ ''_'' @ ts @ ''.'' @ lower format"
proof (induction nums arbitrary: acc out)
  case Nil
  then show ?case by simp
next
  case (Cons a nums)
  show ?case
  proof (cases "image_saved pf (image_filename base a ts format)")
    case True
    let ?out1 = "out(image_filename base a ts format \<mapsto> Image_file (upper format) dpi)"
    from True Cons.prems(1)
    have run: "convert_loop pf base ts format dpi nums (acc @ [image_filename base a ts format]) ?out1
                 = (names, out')"
      by (simp add: Let_def)
    show ?thesis
    proof (cases "out' n = ?out1 n")
      case False
      with run show ?thesis by (rule Cons.IH)
    next
      case True
      with Cons.prems(2) have "?out1 n \<noteq> out n" by simp
      then have "n = image_filename base a ts format"
        by (simp split: if_splits)
      with image_filename_shape [of base a ts format] show ?thesis by blast
    qed
  next
    case False
    with Cons.prems(1) have "convert_loop pf base ts format dpi nums acc out = (names, out')"
      by (simp add: Let_def)
    then show ?thesis using Cons.prems(2) by (rule Cons.IH)
  qed
qed

text \<open>\<open>compress_pdf\<close> gets as far as the first call on the writer.\<close>

lemma apply_quality_raises: "apply_quality quality w = Inl (no_attribute Compress_identical_objects)"
  by (simp add: apply_quality_def call_writer_def PdfWriter_methods_def)


lemma compress_pdf_fails: "\<exists>e. compress_pdf pf filename up out quality now = (Inl e, out)"
proof (cases "up filename")
  case None
  then show ?thesis by (simp add: compress_pdf_def)
next
  case (Some f)
  then show ?thesis
    by (cases "PdfReader f") (simp_all add: compress_pdf_def apply_quality_raises)
qed

lemma returned_merge:
  "n \<in> set (returned_names pf (Merge fs) up out now) \<Longrightarrow> fst (merge_pdfs fs up out now) = Inr n"
  by (cases "fst (merge_pdfs fs up out now)") (simp_all add: returned_names_def)

lemma call_names:
  assumes "n \<in> set (returned_names pf c up out now) \<or> folder_after pf c up out now n \<noteq> out n"
  shows "names_of_call c now n"
proof (cases c)
  case (Merge file_list)
  with assms have "fst (merge_pdfs file_list up out now) = Inr n \<or>
                   snd (merge_pdfs file_list up out now) n \<noteq> out n"
    by (auto simp: folder_after_def dest: returned_merge)
  then have "n = merged_filename now"
    using merge_pdfs_returns merge_pdfs_touches by blast
  with Merge show ?thesis by (simp add: names_of_call_def merged_filename_def)
next
  case (Split filename page_range)
  obtain r out' where run: "split_pdf pf filename up out page_range now = (r, out')"
    by (cases "split_pdf pf filename up out page_range now")
  show ?thesis
  proof (cases "\<exists>pages nums.
      split_loop pf pages (splitext_root filename) (strftime_stamp now) nums [] out = (r, out')")
    case True
    then obtain pages nums where
      loop: "split_loop pf pages (splitext_root filename) (strftime_stamp now) nums [] out = (r, out')"
      by blast
    from assms Split run
    have "(\<exists>names. r = Inr names \<and> n \<in> set names) \<or> out' n \<noteq> out n"
      by (auto simp: returned_names_def folder_after_def split: sum.splits)
    then have "\<exists>k. n = splitext_root filename @ ''_page_'' @ str_int k @ ''_'' @
                        strftime_stamp now @ ''.pdf''"
    proof
      assume "\<exists>names. r = Inr names \<and> n \<in> set names"
      then obtain names where "r = Inr names" "n \<in> set names" by blast
      with loop split_loop_names [of pf pages "splitext_root filename" "strftime_stamp now" nums
          "[]" out names out' n]
      show ?thesis by simp
    next
      assume "out' n \<noteq> out n"
      with loop show ?thesis by (rule split_loop_touches)
    qed
    with Split show ?thesis by (simp add: names_of_call_def)
  next
    case False
    with run have "\<exists>e. r = Inl e" and "out' = out"
      by (auto simp: split_pdf_def split: option.splits sum.splits)
    with assms Split run show ?thesis
      by (auto simp: returned_names_def folder_after_def)
  qed
next
  case (Convert filename format dpi)
  obtain r out' where run: "convert_to_images pf filename up out format dpi now = (r, out')"
    by (cases "convert_to_images pf filename up out format dpi now")
  show ?thesis
  proof (cases "upper format \<in> set supported_formats \<and> (\<exists>nums names.
      convert_loop pf (splitext_root filename) (strftime_stamp now) format dpi nums [] out
        = (names, out') \<and> (\<forall>xs. r = Inr xs \<longrightarrow> xs = names))")
    case True
    then obtain nums names where fmt: "upper format \<in> set supported_formats"
      and loop: "convert_loop pf (splitext_root filename) (strftime_stamp now) format dpi nums [] out
                   = (names, out')"
      and res: "\<forall>xs. r = Inr xs \<longrightarrow> xs = names"
      by blast
    from assms Convert run
    have "(\<exists>xs. r = Inr xs \<and> n \<in> set xs) \<or> out' n \<noteq> out n"
      by (auto simp: returned_names_def folder_after_def split: sum.splits)
    then have "\<exists>k. n = splitext_root filename @ ''_page_'' @ str_int k @ ''_'' @
                        strftime_stamp now @ ''.'' @ lower format"
    proof
      assume "\<exists>xs. r = Inr xs \<and> n \<in> set xs"
      with res have "n \<in> set names" by auto
      with loop convert_loop_names [of pf "splitext_root filename" "strftime_stamp now" format dpi
          nums "[]" out names out' n]
      show ?thesis by simp
    next
      assume "out' n \<noteq> out n"
      with loop show ?thesis by (rule convert_loop_touches)
    qed
    with Convert fmt show ?thesis by (simp add: names_of_call_def)
  next
    case False
    with run have "\<exists>e. r = Inl e" and "out' = out"
      by (auto simp: convert_to_images_def split: option.splits sum.splits if_splits prod.splits)
    with assms Convert run show ?thesis
      by (auto simp: returned_names_def folder_after_def)
  qed
next
  case (Compress filename quality)
  from compress_pdf_fails [of pf filename up out quality now] obtain e
    where "compress_pdf pf filename up out quality now = (Inl e, out)" by blast
  with assms Compress show ?thesis
    by (simp add: returned_names_def folder_after_def)
qed

lemma same_second_stamp: "same_second t1 t2 \<Longrightarrow> strftime_stamp t1 = strftime_stamp t2"
  by (simp add: same_second_def strftime_stamp_def)

text \<open>
  C5, as the code has it. The names an invocation returns and the names under which it
  changes the processed folder, whether it returns them or fails after writing, are
  those of its operation with the timestamp of the call to the second. Two invocations
  whose clock readings lie in different seconds, whatever the operations, the inputs and
  the folders, return disjoint sets of names, and the later one leaves untouched every
  name the earlier one can have written. Two merges in the same second, on whatever
  inputs, return the same name, and what the folder holds under it afterwards is the
  document of the later merge.
\<close>

theorem output_names_distinct_across_seconds:
  assumes "valid_datetime t1" and "valid_datetime t2" and "\<not> same_second t1 t2"
  shows "(\<forall>name. name \<in> set (returned_names pf c1 up1 out1 t1) \<or>
                 folder_after pf c1 up1 out1 t1 name \<noteq> out1 name \<longrightarrow>
                 names_of_call c1 t1 name) \<and>
         set (returned_names pf c1 up1 out1 t1) \<inter> set (returned_names pf c2 up2 out2 t2) = {} \<and>
         (\<forall>name. names_of_call c1 t1 name \<longrightarrow> folder_after pf c2 up2 out2 t2 name = out2 name) \<and>
         (same_second t1 t3 \<and> n \<in> set (returned_names pf (Merge fs) up1 out1 t1) \<and>
          n' \<in> set (returned_names pf (Merge fs') up2 out2 t3) \<longrightarrow>
            n' = n \<and>
            (\<exists>w. merge_loop up2 fs' PdfWriter = Inr w \<and>
                 folder_after pf (Merge fs') up2 out2 t3 n = Some (Pdf_file w)))"
proof (intro conjI allI impI)
  fix name
  assume "name \<in> set (returned_names pf c1 up1 out1 t1) \<or>
          folder_after pf c1 up1 out1 t1 name \<noteq> out1 name"
  then show "names_of_call c1 t1 name" by (rule call_names)
next
  show "set (returned_names pf c1 up1 out1 t1) \<inter> set (returned_names pf c2 up2 out2 t2) = {}"
  proof (rule ccontr)
    assume "set (returned_names pf c1 up1 out1 t1) \<inter> set (returned_names pf c2 up2 out2 t2) \<noteq> {}"
    then obtain x where "x \<in> set (returned_names pf c1 up1 out1 t1)"
      and "x \<in> set (returned_names pf c2 up2 out2 t2)" by blast
    then have "names_of_call c1 t1 x" "names_of_call c2 t2 x"
      by (auto intro: call_names)
    with names_of_calls_differ [OF assms] show False by blast
  qed
next
  fix name
  assume first: "names_of_call c1 t1 name"
  show "folder_after pf c2 up2 out2 t2 name = out2 name"
  proof (rule ccontr)
    assume "folder_after pf c2 up2 out2 t2 name \<noteq> out2 name"
    then have "names_of_call c2 t2 name" by (intro call_names disjI2)
    with first names_of_calls_differ [OF assms] show False by blast
  qed
next
  assume same: "same_second t1 t3 \<and> n \<in> set (returned_names pf (Merge fs) up1 out1 t1) \<and>
                n' \<in> set (returned_names pf (Merge fs') up2 out2 t3)"
  then have n: "n = merged_filename t1"
    by (auto dest!: returned_merge merge_pdfs_returns)
  from same have "fst (merge_pdfs fs' up2 out2 t3) = Inr n'"
    by (auto dest: returned_merge)
  then obtain w where w: "merge_loop up2 fs' PdfWriter = Inr w"
    by (cases "merge_loop up2 fs' PdfWriter") (auto simp: merge_pdfs_def)
  from same have n': "n' = merged_filename t3"
    by (auto dest!: returned_merge merge_pdfs_returns)
  from same have "strftime_stamp t1 = strftime_stamp t3"
    by (intro same_second_stamp) simp
  then have stamp: "merged_filename t3 = merged_filename t1"
    by (simp add: merged_filename_def)
  from n n' stamp show "n' = n" by simp
  from w n stamp
  show "\<exists>w. merge_loop up2 fs' PdfWriter = Inr w \<and>
            folder_after pf (Merge fs') up2 out2 t3 n = Some (Pdf_file w)"
    by (simp add: folder_after_def merge_pdfs_def Let_def write_pdf_def)
qed

lemma strftime_stamp_later: "strftime_stamp demo_later = ''20240309_140600''"
  by code_simp

lemma splitext_root_a: "splitext_root ''a.pdf'' = ''a''"
  by (simp add: splitext_root_def)

lemma merge_demo:
  "merge_pdfs [''a.pdf'', ''b.pdf''] demo_uploads Map.empty demo_now =
     (Inr ''merged_20240309_140559.pdf'',
      [''merged_20240309_140559.pdf'' \<mapsto> Pdf_file \<lparr>w_pages = [11, 12, 13, 21, 22], w_calls = []\<rparr>])"
  by (simp add: merge_pdfs_def merged_filename_def demo_uploads_def PdfReader_def Let_def
      write_pdf_def PdfWriter_def add_page_def strftime_stamp_demo)

lemma split_demo_later:
  "fst (split_pdf demo_platform ''five.pdf'' demo_uploads out
          (JObj [(''start'', JInt 2), (''end'', JInt 3)]) demo_later) =
     Inr [''five_page_2_20240309_140600.pdf'', ''five_page_3_20240309_140600.pdf'']"
  by (simp add: split_pdf_def demo_uploads_def PdfReader_def pages_to_split_def dict_get_def
      py_range_def upto.simps py_getitem_def Let_def create_pdf_def split_filename_def
      str_int_small demo_platform_def splitext_root_demo strftime_stamp_later)

text \<open>
  A merge and, in the next second, a split: the names returned are distinct, and the
  merged document is still in the folder after the split.
\<close>

theorem output_names_distinct_across_seconds_witness:
  "valid_datetime demo_now \<and> valid_datetime demo_later \<and> \<not> same_second demo_now demo_later \<and>
   returned_names demo_platform (Merge [''a.pdf'', ''b.pdf'']) demo_uploads Map.empty demo_now =
     [''merged_20240309_140559.pdf''] \<and>
   names_of_call (Merge [''a.pdf'', ''b.pdf'']) demo_now ''merged_20240309_140559.pdf'' \<and>
   returned_names demo_platform (Split ''five.pdf'' (JObj [(''start'', JInt 2), (''end'', JInt 3)]))
     demo_uploads
     (folder_after demo_platform (Merge [''a.pdf'', ''b.pdf'']) demo_uploads Map.empty demo_now)
     demo_later =
     [''five_page_2_20240309_140600.pdf'', ''five_page_3_20240309_140600.pdf''] \<and>
   set [''merged_20240309_140559.pdf''] \<inter>
     set [''five_page_2_20240309_140600.pdf'', ''five_page_3_20240309_140600.pdf''] = {} \<and>
   folder_after demo_platform (Split ''five.pdf'' (JObj [(''start'', JInt 2), (''end'', JInt 3)]))
     demo_uploads
     (folder_after demo_platform (Merge [''a.pdf'', ''b.pdf'']) demo_uploads Map.empty demo_now)
     demo_later ''merged_20240309_140559.pdf'' =
     Some (Pdf_file \<lparr>w_pages = [11, 12, 13, 21, 22], w_calls = []\<rparr>)"
proof -
  let ?merge = "Merge [''a.pdf'', ''b.pdf'']"
  let ?split = "Split ''five.pdf'' (JObj [(''start'', JInt 2), (''end'', JInt 3)])"
  let ?out = "folder_after demo_platform ?merge demo_uploads Map.empty demo_now"
  have clock: "valid_datetime demo_now" "valid_datetime demo_later" "\<not> same_second demo_now demo_later"
    by (simp_all add: valid_datetime_def same_second_def demo_now_def demo_later_def)
  have merged: "returned_names demo_platform ?merge demo_uploads Map.empty demo_now =
                  [''merged_20240309_140559.pdf'']"
    and folder: "?out ''merged_20240309_140559.pdf'' =
                   Some (Pdf_file \<lparr>w_pages = [11, 12, 13, 21, 22], w_calls = []\<rparr>)"
    by (simp_all add: returned_names_def folder_after_def merge_demo)
  have split: "returned_names demo_platform ?split demo_uploads ?out demo_later =
                 [''five_page_2_20240309_140600.pdf'', ''five_page_3_20240309_140600.pdf'']"
    by (simp add: returned_names_def split_demo_later)
  from output_names_distinct_across_seconds [OF clock, of demo_platform ?merge demo_uploads
      Map.empty ?split demo_uploads ?out]
  have shape: "\<forall>name. name \<in> set (returned_names demo_platform ?merge demo_uploads Map.empty demo_now) \<or>
                 folder_after demo_platform ?merge demo_uploads Map.empty demo_now name \<noteq> Map.empty name \<longrightarrow>
                 names_of_call ?merge demo_now name"
    and disjoint: "set (returned_names demo_platform ?merge demo_uploads Map.empty demo_now) \<inter>
                   set (returned_names demo_platform ?split demo_uploads ?out demo_later) = {}"
    and kept: "\<forall>name. names_of_call ?merge demo_now name \<longrightarrow>
                 folder_after demo_platform ?split demo_uploads ?out demo_later name = ?out name"
    by blast+
  from shape merged have name: "names_of_call ?merge demo_now ''merged_20240309_140559.pdf''"
    by simp
  with kept folder
  have "folder_after demo_platform ?split demo_uploads ?out demo_later ''merged_20240309_140559.pdf'' =
          Some (Pdf_file \<lparr>w_pages = [11, 12, 13, 21, 22], w_calls = []\<rparr>)"
    by simp
  with clock merged name split disjoint show ?thesis by simp
qed

text \<open>
  C5 as stated fails within one second: two merges of different inputs, 999879
  microseconds apart, return the same name, and the second overwrites the artifact of
  the first. It also fails for the operation name: the names that a split returns hold
  the input's name, the word \<^verbatim>\<open>page\<close>, the page number and the timestamp, and the name of
  no operation.
\<close>

theorem output_names_collide_counterexample:
  "fst (merge_pdfs [''a.pdf''] demo_uploads Map.empty demo_now) = Inr ''merged_20240309_140559.pdf'' \<and>
   snd (merge_pdfs [''a.pdf''] demo_uploads Map.empty demo_now) ''merged_20240309_140559.pdf'' =
     Some (Pdf_file \<lparr>w_pages = [11, 12, 13], w_calls = []\<rparr>) \<and>
   fst (merge_pdfs [''b.pdf''] demo_uploads
          (snd (merge_pdfs [''a.pdf''] demo_uploads Map.empty demo_now))
          (demo_now\<lparr>microsecond := 999999\<rparr>)) = Inr ''merged_20240309_140559.pdf'' \<and>
   snd (merge_pdfs [''b.pdf''] demo_uploads
          (snd (merge_pdfs [''a.pdf''] demo_uploads Map.empty demo_now))
          (demo_now\<lparr>microsecond := 999999\<rparr>)) ''merged_20240309_140559.pdf'' =
     Some (Pdf_file \<lparr>w_pages = [21, 22], w_calls = []\<rparr>) \<and>
   fst (split_pdf demo_platform ''five.pdf'' demo_uploads Map.empty
          (JObj [(''start'', JInt 2), (''end'', JInt 3)]) demo_later) =
     Inr [''five_page_2_20240309_140600.pdf'', ''five_page_3_20240309_140600.pdf''] \<and>
   list_all (\<lambda>word. \<not> occurs_in word ''five_page_2_20240309_140600.pdf'' \<and>
                    \<not> occurs_in word ''five_page_3_20240309_140600.pdf'')
     [''split'', ''merge'', ''convert'', ''compress'']"
proof -
  have "strftime_stamp (demo_now\<lparr>microsecond := 999999\<rparr>) = strftime_stamp demo_now"
    by (simp add: strftime_stamp_def)
  then have merges:
    "fst (merge_pdfs [''a.pdf''] demo_uploads Map.empty demo_now) = Inr ''merged_20240309_140559.pdf'' \<and>
     snd (merge_pdfs [''a.pdf''] demo_uploads Map.empty demo_now) ''merged_20240309_140559.pdf'' =
       Some (Pdf_file \<lparr>w_pages = [11, 12, 13], w_calls = []\<rparr>) \<and>
     fst (merge_pdfs [''b.pdf''] demo_uploads
            (snd (merge_pdfs [''a.pdf''] demo_uploads Map.empty demo_now))
            (demo_now\<lparr>microsecond := 999999\<rparr>)) = Inr ''merged_20240309_140559.pdf'' \<and>
     snd (merge_pdfs [''b.pdf''] demo_uploads
            (snd (merge_pdfs [''a.pdf''] demo_uploads Map.empty demo_now))
            (demo_now\<lparr>microsecond := 999999\<rparr>)) ''merged_20240309_140559.pdf'' =
       Some (Pdf_file \<lparr>w_pages = [21, 22], w_calls = []\<rparr>)"
    by (simp add: merge_pdfs_def merged_filename_def demo_uploads_def PdfReader_def Let_def
        write_pdf_def PdfWriter_def add_page_def strftime_stamp_demo)
  have words:
    "list_all (\<lambda>word. \<not> occurs_in word ''five_page_2_20240309_140600.pdf'' \<and>
                      \<not> occurs_in word ''five_page_3_20240309_140600.pdf'')
       [''split'', ''merge'', ''convert'', ''compress'']"
    by code_simp
  from merges split_demo_later [of Map.empty] words show ?thesis by simp
qed

section \<open>Properties of compress\<close>





text \<open>
  The same for every call: whatever the file, the quality and the platform,
  \<open>compress_pdf\<close> returns no name and no ratio, and leaves the processed folder as it
  was.
\<close>

theorem compress_pdf_never_succeeds:
  "fst (compress_pdf pf filename up out quality now) \<noteq> Inr r \<and>
   snd (compress_pdf pf filename up out quality now) = out"
  using compress_pdf_fails [of pf filename up out quality now] by auto

section \<open>Properties of the validators\<close>

lemma first_return_message:
  "first_return cs = Inr (Some msg) \<Longrightarrow> Inr (Some msg) \<in> set cs"
  by (induction cs rule: first_return.induct) auto

lemma check_messages:
  "check_files data = Inr (Some msg) \<Longrightarrow> msg \<noteq> []"
  "check_file data = Inr (Some msg) \<Longrightarrow> msg \<noteq> []"
  "check_pages data = Inr (Some msg) \<Longrightarrow> msg \<noteq> []"
  "check_format data = Inr (Some msg) \<Longrightarrow> msg \<noteq> []"
  "check_dpi data = Inr (Some msg) \<Longrightarrow> msg \<noteq> []"
  "check_quality data = Inr (Some msg) \<Longrightarrow> msg \<noteq> []"
  by (auto simp: check_files_def check_file_def check_pages_def check_format_def check_dpi_def
      check_quality_def Let_def split: sum.splits bool.splits json.splits if_splits)

lemma validate_operation_params_body_result:
  assumes "validate_operation_params_body data required = Inr v"
  shows "v = Valid data \<or> (\<exists>msg. v = Invalid msg \<and> msg \<noteq> [])"
proof (cases v)
  case (Valid x)
  with assms show ?thesis
    by (auto simp: validate_operation_params_body_def split: if_splits sum.splits option.splits)
next
  case (Invalid msg)
  have "msg \<noteq> []"
  proof (cases "first_return
                  [check_files data, check_file data, check_pages data,
                   check_format data, check_dpi data, check_quality data] = Inr (Some msg)")
    case True
    from first_return_message [OF this] show ?thesis
      by (auto dest: check_messages [OF sym])
  next
    case False
    with assms Invalid show ?thesis
      by (auto simp: validate_operation_params_body_def split: if_splits sum.splits option.splits)
  qed
  with Invalid show ?thesis by simp
qed

text \<open>
  C10. Both validators are total: whatever the file object (also without a name, not a
  PDF, or with a stream that raises) and whatever the request body and its types, the
  call returns and raises nothing, and what it returns is a success record or a failure
  record with an error message that is not empty.
\<close>

theorem validators_total:
  "(\<exists>v. validate_operation_params data required = Inr v \<and>
        (v = Valid data \<or> (\<exists>msg. v = Invalid msg \<and> msg \<noteq> []))) \<and>
   (\<exists>v. validate_pdf_file file = Inr v \<and>
        ((\<exists>size pages. v = Valid (size, pages)) \<or> (\<exists>msg. v = Invalid msg \<and> msg \<noteq> [])))"
proof
  show "\<exists>v. validate_operation_params data required = Inr v \<and>
          (v = Valid data \<or> (\<exists>msg. v = Invalid msg \<and> msg \<noteq> []))"
  proof (cases "validate_operation_params_body data required")
    case (Inl e)
    then show ?thesis by (simp add: validate_operation_params_def)
  next
    case (Inr v)
    with validate_operation_params_body_result [OF Inr] show ?thesis
      by (simp add: validate_operation_params_def)
  qed
next
  show "\<exists>v. validate_pdf_file file = Inr v \<and>
          ((\<exists>size pages. v = Valid (size, pages)) \<or> (\<exists>msg. v = Invalid msg \<and> msg \<noteq> []))"
  proof (cases "validate_pdf_file_body file")
    case (Inl e)
    then show ?thesis by (simp add: validate_pdf_file_def)
  next
    case (Inr v)
    then have "(\<exists>size pages. v = Valid (size, pages)) \<or> (\<exists>msg. v = Invalid msg \<and> msg \<noteq> [])"
      by (auto simp: validate_pdf_file_body_def split: option.splits if_splits sum.splits)
    with Inr show ?thesis by (simp add: validate_pdf_file_def)
  qed
qed

text \<open>
  C8 at a request the code can receive: \<^verbatim>\<open>{"file": "a.pdf", "format": 300}\<close>. The format
  is the first offending field, and the failure is the generic message of the
  \<^verbatim>\<open>except\<close> clause, which does not name it; a \<^verbatim>\<open>dpi\<close> of the wrong type, checked with
  \<^verbatim>\<open>isinstance\<close>, does get a message that names the field.
\<close>

theorem format_not_named:
  "validate_operation_params (JObj [(''file'', JStr ''a.pdf''), (''format'', JInt 300)]) [''file''] =
     Inr (Invalid ''Parameter validation failed'') \<and>
   \<not> occurs_in ''format'' (lower ''Parameter validation failed'') \<and>
   validate_operation_params (JObj [(''file'', JStr ''a.pdf''), (''dpi'', JStr ''300'')]) [''file''] =
     Inr (Invalid ''DPI must be an integer between 72 and 600'') \<and>
   occurs_in ''dpi'' (lower ''DPI must be an integer between 72 and 600'')"
  by code_simp

lemma first_return_labelled:
  "first_return (map snd bs) = Inr (Some msg) \<Longrightarrow>
   \<exists>pre field post. bs = pre @ (field, Inr (Some msg)) # post \<and> (\<forall>b \<in> set pre. snd b = Inr None)"
proof (induction bs)
  case Nil
  then show ?case by simp
next
  case (Cons b bs)
  obtain field c where b: "b = (field, c)" by (cases b)
  show ?case
  proof (cases c)
    case (Inl e)
    with Cons.prems b show ?thesis by simp
  next
    case (Inr r)
    show ?thesis
    proof (cases r)
      case None
      with Cons.prems b Inr have "first_return (map snd bs) = Inr (Some msg)" by simp
      from Cons.IH [OF this] obtain pre f post
        where "bs = pre @ (f, Inr (Some msg)) # post" "\<forall>x \<in> set pre. snd x = Inr None" by blast
      with b Inr None have "b # bs = (b # pre) @ (f, Inr (Some msg)) # post"
        and "\<forall>x \<in> set (b # pre). snd x = Inr None" by simp_all
      then show ?thesis by blast
    next
      case (Some m)
      with Cons.prems b Inr have "m = msg" by simp
      with b Inr Some have "b # bs = [] @ (field, Inr (Some msg)) # bs"
        by simp
      then show ?thesis
        by (rule_tac x = "[]" in exI, rule_tac x = field in exI, rule_tac x = bs in exI) simp
    qed
  qed
qed

lemma message_words:
  "occurs_in ''files'' (lower ''Files parameter must be a list'')"
  "occurs_in ''files'' (lower ''Files list cannot be empty'')"
  "occurs_in ''files'' (lower ''Invalid filename in files list'')"
  "occurs_in ''file'' (lower ''File parameter must be a valid filename'')"
  "occurs_in ''page'' (lower ''Pages parameter must be an object'')"
  "occurs_in ''page'' (lower ''Start page must be a positive integer'')"
  "occurs_in ''page'' (lower ''End page must be a positive integer'')"
  "occurs_in ''page'' (lower ''Start page cannot be greater than end page'')"
  "occurs_in ''format'' (lower ''Invalid format. Supported: PNG, JPEG, TIFF'')"
  "occurs_in ''dpi'' (lower ''DPI must be an integer between 72 and 600'')"
  "occurs_in ''quality'' (lower ''Invalid quality. Supported: low, medium, high'')"
  by code_simp+

lemma check_files_names: "check_files data = Inr (Some msg) \<Longrightarrow> occurs_in ''files'' (lower msg)"
  using message_words(1-3)
  by (auto simp: check_files_def split: sum.splits bool.splits json.splits if_splits)

lemma check_file_names: "check_file data = Inr (Some msg) \<Longrightarrow> occurs_in ''file'' (lower msg)"
  using message_words(4)
  by (auto simp: check_file_def split: sum.splits bool.splits if_splits)

lemma check_pages_names: "check_pages data = Inr (Some msg) \<Longrightarrow> occurs_in ''page'' (lower msg)"
  using message_words(5-8)
  by (auto simp: check_pages_def split: sum.splits bool.splits json.splits if_splits)

lemma check_format_names: "check_format data = Inr (Some msg) \<Longrightarrow> occurs_in ''format'' (lower msg)"
  using message_words(9)
  by (auto simp: check_format_def Let_def split: sum.splits bool.splits if_splits)

lemma check_dpi_names: "check_dpi data = Inr (Some msg) \<Longrightarrow> occurs_in ''dpi'' (lower msg)"
  using message_words(10)
  by (auto simp: check_dpi_def split: sum.splits bool.splits if_splits)

lemma check_quality_names: "check_quality data = Inr (Some msg) \<Longrightarrow> occurs_in ''quality'' (lower msg)"
  using message_words(11)
  by (auto simp: check_quality_def Let_def split: sum.splits bool.splits if_splits)

lemma field_block_names:
  assumes "(field, Inr (Some msg)) \<in> set (field_blocks data)"
  shows "occurs_in field (lower msg)"
proof -
  from assms have
    "field = ''files'' \<and> Inr (Some msg) = check_files data \<or>
     field = ''file'' \<and> Inr (Some msg) = check_file data \<or>
     field = ''page'' \<and> Inr (Some msg) = check_pages data \<or>
     field = ''format'' \<and> Inr (Some msg) = check_format data \<or>
     field = ''dpi'' \<and> Inr (Some msg) = check_dpi data \<or>
     field = ''quality'' \<and> Inr (Some msg) = check_quality data"
    by (simp add: field_blocks_def)
  then show ?thesis
  proof (elim disjE conjE)
    assume "field = ''files''" "Inr (Some msg) = check_files data"
    then show ?thesis using check_files_names [of data msg] by simp
  next
    assume "field = ''file''" "Inr (Some msg) = check_file data"
    then show ?thesis using check_file_names [of data msg] by simp
  next
    assume "field = ''page''" "Inr (Some msg) = check_pages data"
    then show ?thesis using check_pages_names [of data msg] by simp
  next
    assume "field = ''format''" "Inr (Some msg) = check_format data"
    then show ?thesis using check_format_names [of data msg] by simp
  next
    assume "field = ''dpi''" "Inr (Some msg) = check_dpi data"
    then show ?thesis using check_dpi_names [of data msg] by simp
  next
    assume "field = ''quality''" "Inr (Some msg) = check_quality data"
    then show ?thesis using check_quality_names [of data msg] by simp
  qed
qed

text \<open>
  What does hold of every failure. A failure of the validator is the missing-data or
  missing-parameter failure, the generic failure of the \<^verbatim>\<open>except\<close> clause, or the message
  of the first block, in the order files, file, pages, format, dpi, quality, that does
  not fall through; that message names the field of the block.
\<close>

theorem validator_fails_at_first_offending_field:
  assumes "validate_operation_params data required = Inr (Invalid msg)"
  shows "msg = ''No data provided'' \<or>
         (\<exists>missing. msg = ''Missing required parameters: '' @ join '', '' missing) \<or>
         msg = ''Parameter validation failed'' \<or>
         (\<exists>pre field post.
            field_blocks data = pre @ (field, Inr (Some msg)) # post \<and>
            (\<forall>b \<in> set pre. snd b = Inr None) \<and> occurs_in field (lower msg))"
proof (cases "first_return (map snd (field_blocks data)) = Inr (Some msg)")
  case True
  from first_return_labelled [OF this] obtain pre field post
    where blocks: "field_blocks data = pre @ (field, Inr (Some msg)) # post"
      and passed: "\<forall>b \<in> set pre. snd b = Inr None" by blast
  from blocks have "(field, Inr (Some msg)) \<in> set (field_blocks data)" by simp
  then have "occurs_in field (lower msg)" by (rule field_block_names)
  with blocks passed show ?thesis by blast
next
  case False
  then have other: "first_return [check_files data, check_file data, check_pages data,
               check_format data, check_dpi data, check_quality data] \<noteq> Inr (Some msg)"
    by (simp add: field_blocks_def)
  show ?thesis
  proof (cases "validate_operation_params_body data required")
    case (Inl e)
    with assms show ?thesis by (simp add: validate_operation_params_def)
  next
    case (Inr v)
    with assms have body: "validate_operation_params_body data required = Inr (Invalid msg)"
      by (simp add: validate_operation_params_def)
    show ?thesis
    proof (cases "py_truthy data")
      case False
      with body show ?thesis by (simp add: validate_operation_params_body_def)
    next
      case True
      show ?thesis
      proof (cases "if required \<noteq> [] then missing_params data required else Inr []")
        case (Inl e)
        with body True show ?thesis by (simp add: validate_operation_params_body_def)
      next
        case missing: (Inr missing)
        show ?thesis
        proof (cases "missing = []")
          case False
          with body True missing have "msg = ''Missing required parameters: '' @ join '', '' missing"
            by (simp add: validate_operation_params_body_def)
          then show ?thesis by blast
        next
          case empty: True
          with body True missing other show ?thesis
            by (simp add: validate_operation_params_body_def split: sum.splits option.splits)
        qed
      qed
    qed
  qed
qed

theorem validator_fails_at_first_offending_field_witness:
  "validate_operation_params
     (JObj [(''file'', JStr ''a.pdf''), (''quality'', JStr ''best''), (''dpi'', JInt 30)]) [''file''] =
     Inr (Invalid ''DPI must be an integer between 72 and 600'') \<and>
   (''DPI must be an integer between 72 and 600'' = ''No data provided'' \<or>
    (\<exists>missing. ''DPI must be an integer between 72 and 600'' =
       ''Missing required parameters: '' @ join '', '' missing) \<or>
    ''DPI must be an integer between 72 and 600'' = ''Parameter validation failed'' \<or>
    (\<exists>pre field post.
       field_blocks (JObj [(''file'', JStr ''a.pdf''), (''quality'', JStr ''best''), (''dpi'', JInt 30)]) =
         pre @ (field, Inr (Some ''DPI must be an integer between 72 and 600'')) # post \<and>
       (\<forall>b \<in> set pre. snd b = Inr None) \<and>
       occurs_in field (lower ''DPI must be an integer between 72 and 600'')))"
proof -
  have run: "validate_operation_params
     (JObj [(''file'', JStr ''a.pdf''), (''quality'', JStr ''best''), (''dpi'', JInt 30)]) [''file''] =
     Inr (Invalid ''DPI must be an integer between 72 and 600'')"
    by code_simp
  from validator_fails_at_first_offending_field [OF run] run show ?thesis
    by blast
qed

section \<open>Properties of the routes\<close>

text \<open>
  C3 at a query the code can receive: user 7 asks for job 2, which does not exist.
  \<^verbatim>\<open>get_or_404\<close> raises \<^verbatim>\<open>NotFound\<close> inside the \<^verbatim>\<open>try\<close>, and \<^verbatim>\<open>except Exception\<close> answers
  500, not 404. The other two cases are as the claim says: another user's job gives 403,
  one's own job 200.
\<close>

theorem get_job_status_missing_job:
  "get_or_404 demo_ledger 2 =
     Inl (Exn NotFound ''404 Not Found: The requested URL was not found on the server.'') \<and>
   (get_job_status demo_ledger 7 2 :: rat response) = (500, Error_body ''Internal server error'') \<and>
   (get_job_status demo_ledger 8 1 :: rat response) = (403, Error_body ''Unauthorized'') \<and>
   fst (get_job_status demo_ledger 7 1 :: rat response) = 200"
  by code_simp

text \<open>
  C9 at a request the code can receive: a split of the three-page \<^verbatim>\<open>a.pdf\<close> with the
  pages range 5 to 6, which the validator accepts. The job ends \<^verbatim>\<open>completed\<close> with an
  empty list of output files.
\<close>

theorem split_route_completed_without_outputs:
  "validate_operation_params
     (JObj [(''file'', JStr ''a.pdf''), (''pages'', JObj [(''start'', JInt 5), (''end'', JInt 6)])])
     [''file''] =
     Inr (Valid (JObj [(''file'', JStr ''a.pdf''),
                       (''pages'', JObj [(''start'', JInt 5), (''end'', JInt 6)])])) \<and>
   fst (split_pdf_route demo_platform 7
          (JObj [(''file'', JStr ''a.pdf''), (''pages'', JObj [(''start'', JInt 5), (''end'', JInt 6)])])
          demo_clock demo_uploads ([], Map.empty) :: rat response \<times> nat server) =
     (200, Split_body 1 []) \<and>
   fst (snd (split_pdf_route demo_platform 7
          (JObj [(''file'', JStr ''a.pdf''), (''pages'', JObj [(''start'', JInt 5), (''end'', JInt 6)])])
          demo_clock demo_uploads ([], Map.empty) :: rat response \<times> nat server)) =
     [\<lparr>job_id = 1, user_id = 7, operation = ''split'',
       input_files = Some (JList [JStr ''a.pdf'']),
       output_files = Some (JList []), status = ''completed'', error_message = None,
       created_at = Some demo_now, completed_at = Some demo_later\<rparr>]"
  by code_simp

lemma fold_max_ge_start: "(a::nat) \<le> fold max xs a"
proof (induction xs arbitrary: a)
  case Nil
  show ?case by simp
next
  case (Cons x xs)
  have "a \<le> max x a" by simp
  also have "max x a \<le> fold max xs (max x a)" by (rule Cons.IH)
  finally show ?case by simp
qed

lemma fold_max_ge_member: "(x::nat) \<in> set xs \<Longrightarrow> x \<le> fold max xs a"
proof (induction xs arbitrary: a)
  case Nil
  then show ?case by simp
next
  case (Cons y ys)
  show ?case
  proof (cases "x = y")
    case True
    have "y \<le> max y a" by simp
    also have "max y a \<le> fold max ys (max y a)" by (rule fold_max_ge_start)
    finally show ?thesis using True by simp
  next
    case False
    with Cons.prems have "x \<in> set ys" by simp
    from Cons.IH [OF this] show ?thesis by simp
  qed
qed

lemma next_id_fresh: "j \<in> set db \<Longrightarrow> job_id j < next_id db"
proof -
  assume "j \<in> set db"
  then have "job_id j \<in> set (map job_id db)" by simp
  from fold_max_ge_member [OF this] show ?thesis
    by (simp add: next_id_def less_Suc_eq_le)
qed

lemma update_job_last:
  assumes "job_id j = next_id db"
  shows "update_job (next_id db) f (db @ [j]) = db @ [f j]"
proof -
  have "map (\<lambda>x. if job_id x = next_id db then f x else x) db = db"
  proof (rule map_idI)
    fix x assume "x \<in> set db"
    from next_id_fresh [OF this] show "(if job_id x = next_id db then f x else x) = x" by simp
  qed
  with assms show ?thesis by (simp add: update_job_def)
qed

lemma first_return_None:
  "first_return cs = Inr None \<Longrightarrow> c \<in> set cs \<Longrightarrow> c = Inr None"
  by (induction cs rule: first_return.induct) auto

text \<open>A body that passed validation with one required key holds a value under that key.\<close>

lemma validated_required:
  assumes "validate_operation_params data [k] = Inr (Valid c)"
  shows "py_contains data k = Inr True"
    and "first_return [check_files data, check_file data, check_pages data,
                       check_format data, check_dpi data, check_quality data] = Inr None"
  using assms
  by (auto simp: validate_operation_params_def validate_operation_params_body_def
      split: sum.splits if_splits option.splits bool.splits)

lemma validated_files:
  assumes "validate_operation_params data [''files''] = Inr (Valid c)"
  shows "\<exists>xs. py_subscript data ''files'' = Inr (JList xs) \<and> xs \<noteq> [] \<and>
              list_all valid_filename_item xs"
proof -
  from validated_required(2) [OF assms] have "check_files data = Inr None"
    by (rule first_return_None) simp
  with validated_required(1) [OF assms] show ?thesis
    by (auto simp: check_files_def split: sum.splits json.splits if_splits)
qed

lemma validated_file:
  assumes "validate_operation_params data [''file''] = Inr (Valid c)"
  shows "\<exists>s. py_subscript data ''file'' = Inr (JStr s) \<and> \<not> blank s"
proof -
  from validated_required(2) [OF assms] have "check_file data = Inr None"
    by (rule first_return_None) simp
  with validated_required(1) [OF assms] show ?thesis
    by (auto simp: check_file_def valid_filename_item_def split: sum.splits json.splits if_splits)
qed


























text \<open>
  The same on any ledger. The three cases of \<open>get_job_status\<close>: no row with the id gives 500, a row
  of another user 403, a row of the caller 200 with the view of that row.
\<close>

theorem get_job_status_cases:
  "(find (\<lambda>j. job_id j = ident) db = None \<longrightarrow>
      (get_job_status db current_user ident :: 'f response) =
        (500, Error_body ''Internal server error'')) \<and>
   (\<forall>j. find (\<lambda>j. job_id j = ident) db = Some j \<and> user_id j \<noteq> current_user \<longrightarrow>
      (get_job_status db current_user ident :: 'f response) = (403, Error_body ''Unauthorized'')) \<and>
   (\<forall>j t. find (\<lambda>j. job_id j = ident) db = Some j \<and> user_id j = current_user \<and>
          created_at j = Some t \<longrightarrow>
      (\<exists>view. (get_job_status db current_user ident :: 'f response) = (200, view) \<and>
         (\<exists>done err outs. view = Status_body ident (operation j) (status j) t done err outs)))"
  by (auto simp: get_job_status_def get_job_status_body_def get_or_404_def
      dest: find_Some_iff [THEN iffD1])

theorem get_job_status_cases_witness:
  "find (\<lambda>j. job_id j = 2) demo_ledger = None \<and>
   (get_job_status demo_ledger 7 2 :: rat response) = (500, Error_body ''Internal server error'') \<and>
   (\<exists>j. find (\<lambda>j. job_id j = 1) demo_ledger = Some j \<and> user_id j \<noteq> 8) \<and>
   (get_job_status demo_ledger 8 1 :: rat response) = (403, Error_body ''Unauthorized'') \<and>
   (\<exists>j. find (\<lambda>j. job_id j = 1) demo_ledger = Some j \<and> user_id j = 7 \<and>
        created_at j = Some demo_now) \<and>
   (\<exists>view. (get_job_status demo_ledger 7 1 :: rat response) = (200, view))"
proof -
  have none: "find (\<lambda>j. job_id j = 2) demo_ledger = None"
    by (simp add: demo_ledger_def)
  have row: "find (\<lambda>j. job_id j = 1) demo_ledger = Some (hd demo_ledger)"
    "user_id (hd demo_ledger) = 7" "created_at (hd demo_ledger) = Some demo_now"
    by (simp_all add: demo_ledger_def)
  from get_job_status_cases [of 2 demo_ledger 7, where ?'f = rat] none
  have a: "(get_job_status demo_ledger 7 2 :: rat response) = (500, Error_body ''Internal server error'')"
    by blast
  from get_job_status_cases [of 1 demo_ledger 8, where ?'f = rat] row
  have b: "(get_job_status demo_ledger 8 1 :: rat response) = (403, Error_body ''Unauthorized'')"
    by auto
  from get_job_status_cases [of 1 demo_ledger 7, where ?'f = rat] row
  have c: "\<exists>view. (get_job_status demo_ledger 7 1 :: rat response) = (200, view)"
    by blast
  from none row a b c show ?thesis by auto
qed

lemma failed_row_inputs:
  "\<exists>j. mark_failed (job_id (new_job db user op inputs t)) e (db @ [new_job db user op inputs t]) =
          db @ [j] \<and>
        job_id j = next_id db \<and> user_id j = user \<and> status j = ''failed'' \<and>
        error_message j = Some (str_exn e) \<and> output_files j = None \<and> input_files j = Some inputs"
proof -
  let ?j = "new_job db user op inputs t"
  have id: "job_id ?j = next_id db" by (simp add: new_job_def)
  have "mark_failed (next_id db) e (db @ [?j]) =
          db @ [?j\<lparr>status := ''failed'', error_message := Some (str_exn e)\<rparr>]"
    unfolding mark_failed_def using id by (rule update_job_last)
  then show ?thesis
    by (simp add: id) (simp add: new_job_def)
qed

lemma completed_row:
  "\<exists>j. mark_completed (job_id (new_job db user op inputs t)) outs t' (db @ [new_job db user op inputs t]) =
          db @ [j] \<and>
        job_id j = next_id db \<and> user_id j = user \<and> status j = ''completed'' \<and>
        error_message j = None \<and> output_files j = Some outs \<and> input_files j = Some inputs"
proof -
  let ?j = "new_job db user op inputs t"
  have id: "job_id ?j = next_id db" by (simp add: new_job_def)
  have "mark_completed (next_id db) outs t' (db @ [?j]) =
          db @ [?j\<lparr>status := ''completed'', output_files := Some outs, completed_at := Some t'\<rparr>]"
    unfolding mark_completed_def using id by (rule update_job_last)
  then show ?thesis
    by (simp add: id) (simp add: new_job_def)
qed

text \<open>A row with the fields of \<open>failed_row_inputs\<close> or \<open>completed_row\<close> is a finished job.\<close>

lemma finished_failed:
  "user_id j = u \<Longrightarrow> status j = ''failed'' \<Longrightarrow> error_message j = Some m \<Longrightarrow>
   output_files j = None \<Longrightarrow> input_files j = Some (JList xs) \<Longrightarrow> xs \<noteq> [] \<Longrightarrow>
   finished_job ep u j"
  by (simp add: finished_job_def)

lemma finished_completed:
  "user_id j = u \<Longrightarrow> status j = ''completed'' \<Longrightarrow> error_message j = None \<Longrightarrow>
   output_files j = Some (JList ys) \<Longrightarrow> (ys = [] \<Longrightarrow> ep = Split_endpoint) \<Longrightarrow>
   input_files j = Some (JList xs) \<Longrightarrow> xs \<noteq> [] \<Longrightarrow>
   finished_job ep u j"
  by (auto simp: finished_job_def)

lemma convert_to_images_nonempty:
  "convert_to_images pf filename up out format dpi now = (Inr names, out') \<Longrightarrow> names \<noteq> []"
  by (auto simp: convert_to_images_def split: option.splits if_splits sum.splits prod.splits)

lemma convert_invocation_nonempty:
  "convert_invocation pf data up out now = (Inr names, out') \<Longrightarrow> names \<noteq> []"
  by (auto simp: convert_invocation_def split: sum.splits dest: convert_to_images_nonempty)

lemma validate_operation_params_returns:
  "\<exists>v. validate_operation_params data required = Inr v"
  by (simp add: validate_operation_params_def split: sum.splits)

lemma merge_route_step:
  assumes "validate_operation_params data [''files''] = Inr (Valid c)"
  shows "\<exists>resp j out'. (merge_pdfs_route u data clk up (db, out) :: 'f response \<times> 'p server) =
            (resp, (db @ [j], out')) \<and> job_id j = next_id db \<and> finished_job Merge_endpoint u j"
proof -
  from validated_files [OF assms] obtain xs
    where xs: "py_subscript data ''files'' = Inr (JList xs)" "xs \<noteq> []" by blast
  obtain r out' where run: "merge_invocation data up out (engine_now clk) = (r, out')"
    by (cases "merge_invocation data up out (engine_now clk)")
  show ?thesis
  proof (cases r)
    case (Inl e)
    from failed_row_inputs [of db u "''merge''" "JList xs" "created_utc clk" e]
    obtain j where "mark_failed (job_id (new_job db u ''merge'' (JList xs) (created_utc clk))) e
        (db @ [new_job db u ''merge'' (JList xs) (created_utc clk)]) = db @ [j]"
      and j: "job_id j = next_id db" "user_id j = u" "status j = ''failed''"
        "error_message j = Some (str_exn e)" "output_files j = None"
        "input_files j = Some (JList xs)"
      by blast
    moreover from j xs(2) have "finished_job Merge_endpoint u j"
      by (intro finished_failed)
    ultimately show ?thesis
      using assms xs run Inl by (simp add: merge_pdfs_route_def Let_def)
  next
    case (Inr path)
    from completed_row [of db u "''merge''" "JList xs" "created_utc clk" "JList [JStr path]"
        "completed_utc clk"]
    obtain j where "mark_completed (job_id (new_job db u ''merge'' (JList xs) (created_utc clk)))
        (JList [JStr path]) (completed_utc clk)
        (db @ [new_job db u ''merge'' (JList xs) (created_utc clk)]) = db @ [j]"
      and j: "job_id j = next_id db" "user_id j = u" "status j = ''completed''"
        "error_message j = None" "output_files j = Some (JList [JStr path])"
        "input_files j = Some (JList xs)"
      by blast
    moreover from j xs(2) have "finished_job Merge_endpoint u j"
      by (intro finished_completed [where ys = "[JStr path]" and xs = xs]) simp_all
    ultimately show ?thesis
      using assms xs run Inr by (simp add: merge_pdfs_route_def Let_def)
  qed
qed

lemma split_route_step:
  assumes "validate_operation_params data [''file''] = Inr (Valid c)"
  shows "\<exists>resp j out'. (split_pdf_route pf u data clk up (db, out) :: 'f response \<times> 'p server) =
            (resp, (db @ [j], out')) \<and> job_id j = next_id db \<and> finished_job Split_endpoint u j"
proof -
  from validated_file [OF assms] obtain s
    where s: "py_subscript data ''file'' = Inr (JStr s)" by blast
  obtain r out' where run: "split_invocation pf data up out (engine_now clk) = (r, out')"
    by (cases "split_invocation pf data up out (engine_now clk)")
  show ?thesis
  proof (cases r)
    case (Inl e)
    from failed_row_inputs [of db u "''split''" "JList [JStr s]" "created_utc clk" e]
    obtain j where "mark_failed (job_id (new_job db u ''split'' (JList [JStr s]) (created_utc clk))) e
        (db @ [new_job db u ''split'' (JList [JStr s]) (created_utc clk)]) = db @ [j]"
      and j: "job_id j = next_id db" "user_id j = u" "status j = ''failed''"
        "error_message j = Some (str_exn e)" "output_files j = None"
        "input_files j = Some (JList [JStr s])"
      by blast
    moreover from j have "finished_job Split_endpoint u j"
      by (intro finished_failed [where xs = "[JStr s]"]) simp_all
    ultimately show ?thesis
      using assms s run Inl by (simp add: split_pdf_route_def Let_def)
  next
    case (Inr res)
    note res = Inr
    from completed_row [of db u "''split''" "JList [JStr s]" "created_utc clk" "JList (map JStr res)"
        "completed_utc clk"]
    obtain j where "mark_completed (job_id (new_job db u ''split'' (JList [JStr s]) (created_utc clk)))
        (JList (map JStr res)) (completed_utc clk)
        (db @ [new_job db u ''split'' (JList [JStr s]) (created_utc clk)]) = db @ [j]"
      and j: "job_id j = next_id db" "user_id j = u" "status j = ''completed''"
        "error_message j = None" "output_files j = Some (JList (map JStr res))"
        "input_files j = Some (JList [JStr s])"
      by blast
    moreover from j have "finished_job Split_endpoint u j"
      by (intro finished_completed [where ys = "map JStr res" and xs = "[JStr s]"]) simp_all
    ultimately show ?thesis
      using assms s run Inr by (simp add: split_pdf_route_def Let_def)
  qed
qed

lemma convert_route_step:
  assumes "validate_operation_params data [''file''] = Inr (Valid c)"
  shows "\<exists>resp j out'. (convert_to_images_route pf u data clk up (db, out) :: 'f response \<times> 'p server) =
            (resp, (db @ [j], out')) \<and> job_id j = next_id db \<and> finished_job Convert_endpoint u j"
proof -
  from validated_file [OF assms] obtain s
    where s: "py_subscript data ''file'' = Inr (JStr s)" by blast
  obtain r out' where run: "convert_invocation pf data up out (engine_now clk) = (r, out')"
    by (cases "convert_invocation pf data up out (engine_now clk)")
  show ?thesis
  proof (cases r)
    case (Inl e)
    from failed_row_inputs [of db u "''convert_to_images''" "JList [JStr s]" "created_utc clk" e]
    obtain j where "mark_failed (job_id (new_job db u ''convert_to_images'' (JList [JStr s]) (created_utc clk))) e
        (db @ [new_job db u ''convert_to_images'' (JList [JStr s]) (created_utc clk)]) = db @ [j]"
      and j: "job_id j = next_id db" "user_id j = u" "status j = ''failed''"
        "error_message j = Some (str_exn e)" "output_files j = None"
        "input_files j = Some (JList [JStr s])"
      by blast
    moreover from j have "finished_job Convert_endpoint u j"
      by (intro finished_failed [where xs = "[JStr s]"]) simp_all
    ultimately show ?thesis
      using assms s run Inl by (simp add: convert_to_images_route_def Let_def)
  next
    case (Inr res)
    from run Inr have "res \<noteq> []" by (auto dest: convert_invocation_nonempty)
    note nonempty = this
    from completed_row [of db u "''convert_to_images''" "JList [JStr s]" "created_utc clk" "JList (map JStr res)"
        "completed_utc clk"]
    obtain j where "mark_completed (job_id (new_job db u ''convert_to_images'' (JList [JStr s]) (created_utc clk)))
        (JList (map JStr res)) (completed_utc clk)
        (db @ [new_job db u ''convert_to_images'' (JList [JStr s]) (created_utc clk)]) = db @ [j]"
      and j: "job_id j = next_id db" "user_id j = u" "status j = ''completed''"
        "error_message j = None" "output_files j = Some (JList (map JStr res))"
        "input_files j = Some (JList [JStr s])"
      by blast
    moreover from j have "finished_job Convert_endpoint u j"
      using nonempty by (intro finished_completed [where ys = "map JStr res" and xs = "[JStr s]"]) simp_all
    ultimately show ?thesis
      using assms s run Inr by (simp add: convert_to_images_route_def Let_def)
  qed
qed

lemma compress_route_step:
  assumes "validate_operation_params data [''file''] = Inr (Valid c)"
  shows "\<exists>resp j out'. (compress_pdf_route pf u data clk up (db, out) :: 'f response \<times> 'p server) =
            (resp, (db @ [j], out')) \<and> job_id j = next_id db \<and> finished_job Compress_endpoint u j"
proof -
  from validated_file [OF assms] obtain s
    where s: "py_subscript data ''file'' = Inr (JStr s)" by blast
  obtain r out' where run: "compress_invocation pf data up out (engine_now clk) = (r, out')"
    by (cases "compress_invocation pf data up out (engine_now clk)")
  show ?thesis
  proof (cases r)
    case (Inl e)
    from failed_row_inputs [of db u "''compress''" "JList [JStr s]" "created_utc clk" e]
    obtain j where "mark_failed (job_id (new_job db u ''compress'' (JList [JStr s]) (created_utc clk))) e
        (db @ [new_job db u ''compress'' (JList [JStr s]) (created_utc clk)]) = db @ [j]"
      and j: "job_id j = next_id db" "user_id j = u" "status j = ''failed''"
        "error_message j = Some (str_exn e)" "output_files j = None"
        "input_files j = Some (JList [JStr s])"
      by blast
    moreover from j have "finished_job Compress_endpoint u j"
      by (intro finished_failed [where xs = "[JStr s]"]) simp_all
    ultimately show ?thesis
      using assms s run Inl by (simp add: compress_pdf_route_def Let_def)
  next
    case (Inr res)
    obtain path ratio where res: "res = (path, ratio)" by (cases res)
    from completed_row [of db u "''compress''" "JList [JStr s]" "created_utc clk" "JList [JStr path]"
        "completed_utc clk"]
    obtain j where "mark_completed (job_id (new_job db u ''compress'' (JList [JStr s]) (created_utc clk)))
        (JList [JStr path]) (completed_utc clk)
        (db @ [new_job db u ''compress'' (JList [JStr s]) (created_utc clk)]) = db @ [j]"
      and j: "job_id j = next_id db" "user_id j = u" "status j = ''completed''"
        "error_message j = None" "output_files j = Some (JList [JStr path])"
        "input_files j = Some (JList [JStr s])"
      by blast
    moreover from j have "finished_job Compress_endpoint u j"
      by (intro finished_completed [where ys = "[JStr path]" and xs = "[JStr s]"]) simp_all
    ultimately show ?thesis
      using assms s run Inr res by (simp add: compress_pdf_route_def Let_def)
  qed
qed

text \<open>
  What does hold of the ledger after every request. One request to a job-creating route leaves the ledger as it
  was (the request was rejected before a job was created) or adds exactly one row, with
  the next id, which is a finished job: owned by the caller, with a non-empty input
  list, and failed with an error message and no outputs, or completed with outputs that
  are not empty unless the route is split. No row is left \<^verbatim>\<open>processing\<close>.
\<close>

theorem api_post_ledger_step:
  "\<exists>resp db' out'.
     (api_post pf ep current_user data clk up (db, out) :: 'f response \<times> 'p server) =
       (resp, (db', out')) \<and>
     (db' = db \<or>
      (\<exists>j. db' = db @ [j] \<and> job_id j = next_id db \<and> finished_job ep current_user j))"
proof -
  obtain v where v: "validate_operation_params data (required_params ep) = Inr v"
    using validate_operation_params_returns by blast
  show ?thesis
  proof (cases v)
    case (Invalid msg)
    with v show ?thesis
      by (cases ep)
        (simp_all add: api_post_def required_params_def merge_pdfs_route_def split_pdf_route_def
          convert_to_images_route_def compress_pdf_route_def)
  next
    case (Valid c)
    show ?thesis
    proof (cases ep)
      case Merge_endpoint
      with v Valid have "validate_operation_params data [''files''] = Inr (Valid c)"
        by (simp add: required_params_def)
      from merge_route_step [OF this, of current_user clk up db out]
      show ?thesis using Merge_endpoint by (auto simp: api_post_def)
    next
      case Split_endpoint
      with v Valid have "validate_operation_params data [''file''] = Inr (Valid c)"
        by (simp add: required_params_def)
      from split_route_step [OF this, of pf current_user clk up db out]
      show ?thesis using Split_endpoint by (auto simp: api_post_def)
    next
      case Convert_endpoint
      with v Valid have "validate_operation_params data [''file''] = Inr (Valid c)"
        by (simp add: required_params_def)
      from convert_route_step [OF this, of pf current_user clk up db out]
      show ?thesis using Convert_endpoint by (auto simp: api_post_def)
    next
      case Compress_endpoint
      with v Valid have "validate_operation_params data [''file''] = Inr (Valid c)"
        by (simp add: required_params_def)
      from compress_route_step [OF this, of pf current_user clk up db out]
      show ?thesis using Compress_endpoint by (auto simp: api_post_def)
    qed
  qed
qed

text \<open>A merge of two valid files by user 7 on an empty ledger: the answer and the one row.\<close>

theorem api_post_ledger_step_witness:
  "\<exists>resp db' out'.
     (api_post demo_platform Merge_endpoint 7 (JObj [(''files'', JList [JStr ''a.pdf'', JStr ''b.pdf''])])
        demo_clock demo_uploads ([], Map.empty) :: rat response \<times> nat server) = (resp, (db', out')) \<and>
     (db' = [] \<or> (\<exists>j. db' = [j] \<and> job_id j = 1 \<and> finished_job Merge_endpoint 7 j))"
  using api_post_ledger_step [of demo_platform Merge_endpoint 7
      "JObj [(''files'', JList [JStr ''a.pdf'', JStr ''b.pdf''])]" demo_clock demo_uploads "[]" Map.empty]
  by (simp add: next_id_def)
end
